theory Spec2Isabelle
  imports Main
begin

section \<open>Python strings and values\<close>

text \<open>
  A Python \<open>str\<close> is modelled as a \<open>string\<close>; a \<open>char\<close> stands for a code point in the
  range 0 to 255, so the characters from 128 on are the non-ASCII ones of the model.
\<close>

definition dquote :: char where
  "dquote = CHR 0x22"

definition backslash :: char where
  "backslash = CHR 0x5C"

definition digit_char :: "nat \<Rightarrow> char" where
  "digit_char n = char_of (48 + n)"

text \<open>\<open>str(n)\<close> for a non-negative Python int: its decimal digits.\<close>

fun str_nat :: "nat \<Rightarrow> string" where
  "str_nat n = (if n < 10 then [digit_char n] else str_nat (n div 10) @ [digit_char (n mod 10)])"

declare str_nat.simps [simp del]

text \<open>\<open>str(i)\<close> for a Python int.\<close>

definition str_int :: "int \<Rightarrow> string" where
  "str_int i = (if i < 0 then CHR ''-'' # str_nat (nat (- i)) else str_nat (nat i))"

text \<open>\<open>str.lower()\<close> on the code points 0 to 255: the ASCII capitals and the Latin-1 capitals
  (U+00C0 to U+00DE without the multiplication sign U+00D7) move up by 32.\<close>

definition lower_char :: "char \<Rightarrow> char" where
  "lower_char c =
     (let n = (of_char c :: nat) in
      if (65 \<le> n \<and> n \<le> 90) \<or> (192 \<le> n \<and> n \<le> 222 \<and> n \<noteq> 215) then char_of (n + 32) else c)"

definition lower :: "string \<Rightarrow> string" where
  "lower s = map lower_char s"

text \<open>\<open>sep.join(xs)\<close>.\<close>

fun join :: "string \<Rightarrow> string list \<Rightarrow> string" where
  "join sep [] = []"
| "join sep [x] = x"
| "join sep (x # y # ys) = x @ sep @ join sep (y # ys)"

section \<open>json.dumps with ensure_ascii=False and separators (",", ":")\<close>

definition hex_digit :: "nat \<Rightarrow> char" where
  "hex_digit n = (if n < 10 then char_of (48 + n) else char_of (87 + n))"

text \<open>
  The encoder's escape table: backslash, double quote and the five named control characters
  get their two-character escape, every other code point below 0x20 the six-character
  \<open>\u00XX\<close> form in lower-case hex, and everything else, the non-ASCII characters included,
  is copied.
\<close>

definition escape_char :: "char \<Rightarrow> string" where
  "escape_char c =
     (if c = backslash then [backslash, backslash]
      else if c = dquote then [backslash, dquote]
      else if c = CHR 0x08 then [backslash, CHR ''b'']
      else if c = CHR 0x0C then [backslash, CHR ''f'']
      else if c = CHR 0x0A then [backslash, CHR ''n'']
      else if c = CHR 0x0D then [backslash, CHR ''r'']
      else if c = CHR 0x09 then [backslash, CHR ''t'']
      else if (of_char c :: nat) < 0x20
        then [backslash, CHR ''u'', CHR ''0'', CHR ''0'',
              hex_digit ((of_char c :: nat) div 16), hex_digit ((of_char c :: nat) mod 16)]
      else [c])"

definition py_encode_basestring :: "string \<Rightarrow> string" where
  "py_encode_basestring s = dquote # concat (map escape_char s) @ [dquote]"

definition encode_item :: "string \<times> string \<Rightarrow> string" where
  "encode_item kv = py_encode_basestring (fst kv) @ '':'' @ py_encode_basestring (snd kv)"

text \<open>A \<open>dict\<close> of \<open>str\<close> to \<open>str\<close> in insertion order is an association list.\<close>

definition json_dumps :: "(string \<times> string) list \<Rightarrow> string" where
  "json_dumps d = ''{'' @ join '','' (map encode_item d) @ ''}''"

section \<open>A JSON reader for objects of strings\<close>

text \<open>
  The reader accepts the JSON texts that are one object whose member values are strings,
  without insignificant white space; every text it accepts is a JSON text. It is the
  yardstick for the validity of the formatter's lines.
\<close>

definition hex_val :: "char \<Rightarrow> nat option" where
  "hex_val c =
     (let n = (of_char c :: nat) in
      if 48 \<le> n \<and> n \<le> 57 then Some (n - 48)
      else if 97 \<le> n \<and> n \<le> 102 then Some (n - 87)
      else if 65 \<le> n \<and> n \<le> 70 then Some (n - 55)
      else None)"

definition hex4 :: "char \<Rightarrow> char \<Rightarrow> char \<Rightarrow> char \<Rightarrow> nat option" where
  "hex4 a b c d =
     (case (hex_val a, hex_val b, hex_val c, hex_val d) of
        (Some w, Some x, Some y, Some z) \<Rightarrow> Some (((w * 16 + x) * 16 + y) * 16 + z)
      | _ \<Rightarrow> None)"

definition unescape_simple :: "char \<Rightarrow> char option" where
  "unescape_simple e =
     (if e = dquote then Some dquote
      else if e = backslash then Some backslash
      else if e = CHR ''/'' then Some CHR ''/''
      else if e = CHR ''b'' then Some (CHR 0x08)
      else if e = CHR ''f'' then Some (CHR 0x0C)
      else if e = CHR ''n'' then Some (CHR 0x0A)
      else if e = CHR ''r'' then Some (CHR 0x0D)
      else if e = CHR ''t'' then Some (CHR 0x09)
      else None)"

definition cons_fst :: "char \<Rightarrow> (string \<times> string) option \<Rightarrow> (string \<times> string) option" where
  "cons_fst c r = (case r of None \<Rightarrow> None | Some (s, rest) \<Rightarrow> Some (c # s, rest))"

text \<open>
  Reads a string body after its opening quote and returns the decoded string with the input
  that follows the closing quote. A raw control character is refused, and so is a
  \<open>\uXXXX\<close> escape of a code point that the model's characters do not reach.
\<close>

fun scanstring :: "string \<Rightarrow> (string \<times> string) option" where
  "scanstring [] = None"
| "scanstring (c # cs) =
     (if c = dquote then Some ([], cs)
      else if c = backslash then
        (case cs of
           [] \<Rightarrow> None
         | e # r \<Rightarrow>
             if e = CHR ''u'' then
               (case r of
                  h1 # h2 # h3 # h4 # r' \<Rightarrow>
                    (case hex4 h1 h2 h3 h4 of
                       None \<Rightarrow> None
                     | Some n \<Rightarrow> if n < 256 then cons_fst (char_of n) (scanstring r') else None)
                | _ \<Rightarrow> None)
             else
               (case unescape_simple e of
                  None \<Rightarrow> None
                | Some ch \<Rightarrow> cons_fst ch (scanstring r)))
      else if (of_char c :: nat) < 0x20 then None
      else cons_fst c (scanstring cs))"

lemma cons_fst_shorter:
  "cons_fst c r = Some (d, rest) \<Longrightarrow> \<exists>d'. r = Some (d', rest)"
  by (auto simp: cons_fst_def split: option.splits)

lemma scanstring_shorter:
  "scanstring inp = Some (d, rest) \<Longrightarrow> length rest < length inp"
proof (induction inp arbitrary: d rest rule: scanstring.induct)
  case 1
  then show ?case by simp
next
  case (2 c cs)
  show ?case
  proof (cases "c = dquote")
    case True
    with "2.prems" show ?thesis by simp
  next
    case notq: False
    show ?thesis
    proof (cases "c = backslash")
      case False
      with notq "2.prems" obtain d' where "scanstring cs = Some (d', rest)"
        by (auto split: if_splits dest: cons_fst_shorter)
      with "2.IH"(3) [OF notq False] "2.prems" notq False show ?thesis
        by (fastforce split: if_splits)
    next
      case bs: True
      then obtain e r where cs: "cs = e # r"
        using "2.prems" notq by (cases cs) auto
      show ?thesis
      proof (cases "e = CHR ''u''")
        case False
        with "2.prems" notq bs cs obtain ch d' where
          "unescape_simple e = Some ch" "scanstring r = Some (d', rest)"
          by (auto split: option.splits dest: cons_fst_shorter)
        with "2.IH"(2) [OF notq bs cs False] cs show ?thesis
          by fastforce
      next
        case True
        with "2.prems" notq bs cs obtain h1 h2 h3 h4 r' n d' where
          r: "r = h1 # h2 # h3 # h4 # r'" and h: "hex4 h1 h2 h3 h4 = Some n" "n < 256"
          and sc: "scanstring r' = Some (d', rest)"
          by (auto split: list.splits option.splits if_splits dest: cons_fst_shorter)
        from "2.IH"(1) [OF notq bs cs True r refl refl refl h sc] cs r show ?thesis
          by fastforce
      qed
    qed
  qed
qed

text \<open>One member \<open>"key":"value"\<close>, with the input that follows it.\<close>

definition parse_pair :: "string \<Rightarrow> ((string \<times> string) \<times> string) option" where
  "parse_pair inp =
     (case inp of
        [] \<Rightarrow> None
      | q # r \<Rightarrow>
          if q \<noteq> dquote then None
          else
            (case scanstring r of
               None \<Rightarrow> None
             | Some (k, r1) \<Rightarrow>
                 (case r1 of
                    c # q2 # r2 \<Rightarrow>
                      if c = CHR '':'' \<and> q2 = dquote then
                        (case scanstring r2 of
                           None \<Rightarrow> None
                         | Some (v, r3) \<Rightarrow> Some ((k, v), r3))
                      else None
                  | _ \<Rightarrow> None)))"

lemma parse_pair_shorter:
  "parse_pair inp = Some (kv, rest) \<Longrightarrow> length rest < length inp"
  by (fastforce simp: parse_pair_def split: list.splits if_splits option.splits
      dest: scanstring_shorter)

text \<open>The members of an object up to its closing brace, which must end the text.\<close>

function parse_members :: "string \<Rightarrow> (string \<times> string) list option" where
  "parse_members inp =
     (case parse_pair inp of
        None \<Rightarrow> None
      | Some (kv, rest) \<Rightarrow>
          (case rest of
             [] \<Rightarrow> None
           | c # r \<Rightarrow>
               if c = CHR ''}'' then (if r = [] then Some [kv] else None)
               else if c = CHR '','' then
                 (case parse_members r of None \<Rightarrow> None | Some kvs \<Rightarrow> Some (kv # kvs))
               else None))"
  by pat_completeness auto
termination
proof (relation "measure length")
  show "wf (measure length)" by simp
next
  fix inp :: string and x2 kv rest c r
  assume "parse_pair inp = Some x2" "(kv, rest) = x2" "rest = c # r"
  then have "length (c # r) < length inp"
    using parse_pair_shorter [of inp kv rest] by simp
  then show "(r, inp) \<in> measure length" by simp
qed

declare parse_members.simps [simp del]

definition json_loads :: "string \<Rightarrow> (string \<times> string) list option" where
  "json_loads text =
     (case text of
        [] \<Rightarrow> None
      | c # r \<Rightarrow>
          if c \<noteq> CHR ''{'' then None
          else if r = ''}'' then Some []
          else parse_members r)"

section \<open>Exceptions and argument values\<close>

text \<open>The exceptions a call can meet. \<open>SystemExit n\<close> is what \<open>sys.exit(n)\<close> raises.\<close>

datatype exn = TypeError | ValueError | OSError | SystemExit int

text \<open>
  The arguments of the logging functions are typed \<open>Any\<close>. The model has strings, ints,
  bools, \<open>None\<close>, and \<open>PyObj r\<close> for an object of a user class that defines \<open>__str__\<close> only:
  \<open>r\<close> is what its \<open>__str__\<close> returns or raises.
\<close>

datatype pyval = PyStr string | PyInt int | PyBool bool | PyNone | PyObj "exn + string"

fun py_str :: "pyval \<Rightarrow> exn + string" where
  "py_str (PyStr x) = Inr x"
| "py_str (PyInt i) = Inr (str_int i)"
| "py_str (PyBool b) = Inr (if b then ''True'' else ''False'')"
| "py_str PyNone = Inr ''None''"
| "py_str (PyObj r) = r"

text \<open>\<open>str(arg) for arg in args\<close>, left to right; the first exception ends it.\<close>

fun str_all :: "pyval list \<Rightarrow> exn + string list" where
  "str_all [] = Inr []"
| "str_all (a # as) =
     (case py_str a of
        Inl e \<Rightarrow> Inl e
      | Inr x \<Rightarrow> (case str_all as of Inl e \<Rightarrow> Inl e | Inr xs \<Rightarrow> Inr (x # xs)))"

text \<open>\<open>" ".join(str(arg) for arg in args)\<close>\<close>

definition join_args :: "pyval list \<Rightarrow> exn + string" where
  "join_args args = (case str_all args of Inl e \<Rightarrow> Inl e | Inr xs \<Rightarrow> Inr (join '' '' xs))"

definition prepend :: "string \<Rightarrow> exn + string \<Rightarrow> exn + string" where
  "prepend p r = (case r of Inl e \<Rightarrow> Inl e | Inr x \<Rightarrow> Inr (p @ x))"

text \<open>What \<open>%d\<close>, \<open>%i\<close> and \<open>%u\<close> make of an argument: a number is required.\<close>

fun percent_d :: "pyval \<Rightarrow> exn + string" where
  "percent_d (PyInt i) = Inr (str_int i)"
| "percent_d (PyBool b) = Inr (if b then ''1'' else ''0'')"
| "percent_d (PyStr x) = Inl TypeError"
| "percent_d PyNone = Inl TypeError"
| "percent_d (PyObj r) = Inl TypeError"

text \<open>
  \<open>template % args\<close> for a tuple \<open>args\<close>, read left to right as CPython does:
  \<^item> a lone \<open>%\<close> at the end is a ValueError (incomplete format);
  \<^item> \<open>%(\<close> is a TypeError (format requires a mapping, and \<open>args\<close> is a tuple);
  \<^item> \<open>%%\<close> is a percent sign and takes no argument;
  \<^item> any other conversion type takes the next argument, a TypeError when none is left;
  \<^item> \<open>%s\<close> is \<open>str\<close> of the argument, \<open>%d\<close>, \<open>%i\<close>, \<open>%u\<close> its decimal digits;
  \<^item> a character that is no conversion type is a ValueError;
  \<^item> arguments left over at the end are a TypeError.
  The operator writes what it has formatted so far and goes on with the rest of the
  template and the arguments not yet taken, so its result from a conversion on depends on
  that rest and those arguments alone. Where the conversion has a flag, a width, a
  precision or a length modifier, or is one of \<open>%c %r %a %o %x %X %e %E %f %F %g %G\<close>
  applied to an argument, this theory does not spell the result out: it is
  \<open>tail rest args\<close> for the parameter \<open>tail\<close>, which stands for the interpreter there.
  Nothing is assumed of \<open>tail\<close>, so what is proved holds for the interpreter's operator.
\<close>

fun py_percent ::
  "(string \<Rightarrow> pyval list \<Rightarrow> exn + string) \<Rightarrow> string \<Rightarrow> pyval list \<Rightarrow> exn + string" where
  "py_percent tail [] args = (if args = [] then Inr [] else Inl TypeError)"
| "py_percent tail (c # cs) args =
     (if c \<noteq> CHR ''%'' then prepend [c] (py_percent tail cs args)
      else
        (case cs of
           [] \<Rightarrow> Inl ValueError
         | t # rest \<Rightarrow>
             if t = CHR ''('' then Inl TypeError
             else if t \<in> set ''-+ #0123456789*.hlL'' then tail (c # cs) args
             else if t = CHR ''%'' then prepend ''%'' (py_percent tail rest args)
             else
               (case args of
                  [] \<Rightarrow> Inl TypeError
                | a # args' \<Rightarrow>
                    if t = CHR ''s'' then
                      (case py_str a of
                         Inl e \<Rightarrow> Inl e
                       | Inr x \<Rightarrow> prepend x (py_percent tail rest args'))
                    else if t \<in> set ''diu'' then
                      (case percent_d a of
                         Inl e \<Rightarrow> Inl e
                       | Inr x \<Rightarrow> prepend x (py_percent tail rest args'))
                    else if t \<in> set ''craoxXeEfFgG'' then tail (c # cs) args
                    else Inl ValueError)))"

subsection \<open>Positional substitution\<close>

text \<open>
  Interpolation in the words of the specification: a template is literal text with
  placeholders, and the arguments fill the placeholders in their order. A template is
  given by its pieces: text free of percent signs, \<open>%s\<close>, \<open>%d\<close> and \<open>%%\<close>.
  \<open>template_of\<close> writes the pieces as the template string, and \<open>substitute\<close> fills them:
  too few or too many arguments and a \<open>%d\<close> that meets no number are TypeErrors, and an
  exception of an argument's \<open>__str__\<close> is passed on.
\<close>

datatype piece = Text string | Str_conv | Int_conv | Percent_sign

fun piece_text :: "piece \<Rightarrow> string" where
  "piece_text (Text x) = x"
| "piece_text Str_conv = ''%s''"
| "piece_text Int_conv = ''%d''"
| "piece_text Percent_sign = ''%%''"

definition template_of :: "piece list \<Rightarrow> string" where
  "template_of ps = concat (map piece_text ps)"

fun plain_text :: "piece \<Rightarrow> bool" where
  "plain_text (Text x) = (CHR ''%'' \<notin> set x)"
| "plain_text Str_conv = True"
| "plain_text Int_conv = True"
| "plain_text Percent_sign = True"

fun substitute :: "piece list \<Rightarrow> pyval list \<Rightarrow> exn + string" where
  "substitute [] args = (if args = [] then Inr [] else Inl TypeError)"
| "substitute (Text x # ps) args = prepend x (substitute ps args)"
| "substitute (Percent_sign # ps) args = prepend ''%'' (substitute ps args)"
| "substitute (Str_conv # ps) [] = Inl TypeError"
| "substitute (Str_conv # ps) (a # args) =
     (case py_str a of Inl e \<Rightarrow> Inl e | Inr x \<Rightarrow> prepend x (substitute ps args))"
| "substitute (Int_conv # ps) [] = Inl TypeError"
| "substitute (Int_conv # ps) (a # args) =
     (case percent_d a of Inl e \<Rightarrow> Inl e | Inr x \<Rightarrow> prepend x (substitute ps args))"

section \<open>The logging library, as far as the module uses it\<close>

datatype level = DEBUG | INFO | WARNING | ERROR | CRITICAL

fun levelno :: "level \<Rightarrow> int" where
  "levelno DEBUG = 10"
| "levelno INFO = 20"
| "levelno WARNING = 30"
| "levelno ERROR = 40"
| "levelno CRITICAL = 50"

fun levelname :: "level \<Rightarrow> string" where
  "levelname DEBUG = ''DEBUG''"
| "levelname INFO = ''INFO''"
| "levelname WARNING = ''WARNING''"
| "levelname ERROR = ''ERROR''"
| "levelname CRITICAL = ''CRITICAL''"

text \<open>
  A \<open>LogRecord\<close>: its level (\<open>levelno\<close> and \<open>levelname\<close> follow from it), the message, and
  \<open>exc_info\<close>, which is \<open>None\<close> or carries the rendered text of
  \<open>traceback.format_exception\<close>. The module passes no \<open>args\<close> to the logger, so
  \<open>record.getMessage()\<close> is the message.
\<close>

record log_record =
  rec_level :: level
  getMessage :: string
  exc_info :: "string option"

datatype destination = Stdout | File string

text \<open>A handler: where it writes, its level, and the level of its \<open>LevelFilter\<close> if it has one.\<close>

record handler =
  dest :: destination
  hlevel :: int
  hfilter :: "int option"

record logger =
  llevel :: int
  handlers :: "handler list"
  propagate :: bool

text \<open>
  The state the module works on:
  \<^item> \<open>tubalog\<close>, the object \<open>logging.getLogger("tubalog")\<close>;
  \<^item> \<open>logger_set\<close>, whether the global \<open>_logger\<close> is not \<open>None\<close> (it then is that object);
  \<^item> \<open>trace_id_var\<close>, the value of the context variable in the current context, with
    \<open>None\<close> for unset, the variable's default;
  \<^item> \<open>clock\<close>, the reading \<open>int(time.time())\<close>, whole seconds since the epoch: the
    system clock does not run before it;
  \<^item> \<open>written\<close>, the lines written so far with their destination, oldest first, each
    without the terminator that the handler adds;
  \<^item> \<open>unopenable\<close>, the paths at which the file system refuses to open a log file;
  \<^item> \<open>percent_tail\<close>, the interpreter's \<open>%\<close> operator on the conversions that
    \<open>py_percent\<close> leaves to its parameter.
\<close>

record state =
  tubalog :: logger
  logger_set :: bool
  trace_id_var :: "string option"
  clock :: nat
  written :: "(destination \<times> string) list"
  unopenable :: "string set"
  percent_tail :: "string \<Rightarrow> pyval list \<Rightarrow> exn + string"

section \<open>log.py\<close>

text \<open>The dataclass \<open>Config\<close>; its field \<open>debug\<close> is \<open>debug_mode\<close> here, next to the function
  \<open>debug\<close>.\<close>

record config =
  log_path :: string
  app_name :: string
  debug_mode :: bool
  multi_file :: bool

subsection \<open>JSONFormatter\<close>

definition JSONFormatter_format :: "log_record \<Rightarrow> state \<Rightarrow> string" where
  "JSONFormatter_format r s =
     (let log_entry = [(''level'', lower (levelname (rec_level r))),
                       (''event_time'', str_nat (clock s)),
                       (''msg'', getMessage r)];
          log_entry = (case trace_id_var s of
                         None \<Rightarrow> log_entry
                       | Some trace_id \<Rightarrow> log_entry @ [(''trace_id'', trace_id)]);
          log_entry = (case exc_info r of
                         None \<Rightarrow> log_entry
                       | Some tb \<Rightarrow>
                           if levelno (rec_level r) \<ge> levelno WARNING
                           then log_entry @ [(''stacktrace'', tb)] else log_entry)
      in json_dumps log_entry)"

subsection \<open>Handlers and the logger's methods\<close>

text \<open>\<open>StreamHandler.emit\<close>: format the record and write the line to the handler's stream.\<close>

definition emit :: "handler \<Rightarrow> log_record \<Rightarrow> state \<Rightarrow> state" where
  "emit h r s = s\<lparr>written := written s @ [(dest h, JSONFormatter_format r s)]\<rparr>"

text \<open>\<open>LevelFilter.filter\<close>\<close>

definition LevelFilter_filter :: "int \<Rightarrow> log_record \<Rightarrow> bool" where
  "LevelFilter_filter lvl r = (levelno (rec_level r) = lvl)"

text \<open>\<open>Handler.handle\<close>: the handler's filter decides whether the record is emitted.\<close>

definition handle :: "handler \<Rightarrow> log_record \<Rightarrow> state \<Rightarrow> state" where
  "handle h r s =
     (case hfilter h of
        None \<Rightarrow> emit h r s
      | Some lvl \<Rightarrow> if LevelFilter_filter lvl r then emit h r s else s)"

text \<open>
  \<open>Logger.callHandlers\<close>: every handler whose level the record reaches handles it, in the
  order of the list. The logger does not propagate, so only its own handlers are asked.
\<close>

fun callHandlers :: "handler list \<Rightarrow> log_record \<Rightarrow> state \<Rightarrow> state" where
  "callHandlers [] r s = s"
| "callHandlers (h # hs) r s =
     callHandlers hs r (if levelno (rec_level r) \<ge> hlevel h then handle h r s else s)"

text \<open>
  \<open>Logger.getEffectiveLevel\<close>: the logger's own level, or, while that is NOTSET, the level
  of the root logger, WARNING unless the application changed it. \<open>Logger.isEnabledFor\<close>
  compares with it; the module never calls \<open>logging.disable\<close>.
\<close>

definition getEffectiveLevel :: "logger \<Rightarrow> int" where
  "getEffectiveLevel lg = (if llevel lg \<noteq> 0 then llevel lg else levelno WARNING)"

definition isEnabledFor :: "logger \<Rightarrow> level \<Rightarrow> bool" where
  "isEnabledFor lg lvl = (levelno lvl \<ge> getEffectiveLevel lg)"

text \<open>\<open>Logger._log(level, msg, args, exc_info)\<close>: make the record and hand it to the handlers.\<close>

definition Logger_log :: "level \<Rightarrow> string \<Rightarrow> string option \<Rightarrow> state \<Rightarrow> state" where
  "Logger_log lvl m exc s =
     callHandlers (handlers (tubalog s)) \<lparr>rec_level = lvl, getMessage = m, exc_info = exc\<rparr> s"

definition Logger_debug :: "string \<Rightarrow> state \<Rightarrow> state" where
  "Logger_debug m s = (if isEnabledFor (tubalog s) DEBUG then Logger_log DEBUG m None s else s)"

definition Logger_info :: "string \<Rightarrow> state \<Rightarrow> state" where
  "Logger_info m s = (if isEnabledFor (tubalog s) INFO then Logger_log INFO m None s else s)"

definition Logger_warning :: "string \<Rightarrow> state \<Rightarrow> state" where
  "Logger_warning m s =
     (if isEnabledFor (tubalog s) WARNING then Logger_log WARNING m None s else s)"

definition Logger_error :: "string \<Rightarrow> state \<Rightarrow> state" where
  "Logger_error m s = (if isEnabledFor (tubalog s) ERROR then Logger_log ERROR m None s else s)"

definition Logger_critical :: "string \<Rightarrow> state \<Rightarrow> state" where
  "Logger_critical m s =
     (if isEnabledFor (tubalog s) CRITICAL then Logger_log CRITICAL m None s else s)"

definition addHandler :: "handler \<Rightarrow> state \<Rightarrow> state" where
  "addHandler h s = s\<lparr>tubalog := (tubalog s)\<lparr>handlers := handlers (tubalog s) @ [h]\<rparr>\<rparr>"

text \<open>\<open>os.path.join\<close> of two components, on POSIX.\<close>

definition os_path_join :: "string \<Rightarrow> string \<Rightarrow> string" where
  "os_path_join a b =
     (case b of
        [] \<Rightarrow> (if a = [] \<or> last a = CHR ''/'' then a else a @ ''/'')
      | c # _ \<Rightarrow>
          if c = CHR ''/'' then b
          else if a = [] \<or> last a = CHR ''/'' then a @ b
          else a @ ''/'' @ b)"

subsection \<open>Creating the logger\<close>

type_synonym outcome = "(exn + unit) \<times> state"

text \<open>Statement sequencing: an exception leaves the rest undone.\<close>

definition and_then :: "outcome \<Rightarrow> (state \<Rightarrow> outcome) \<Rightarrow> outcome" where
  "and_then r f = (case r of (Inl e, s) \<Rightarrow> (Inl e, s) | (Inr u, s) \<Rightarrow> f s)"

text \<open>
  \<open>_add_level_file_handler\<close>. Constructing the \<open>TimedRotatingFileHandler\<close> opens the file,
  which raises \<open>OSError\<close> where the file system refuses.
\<close>

definition add_level_file_handler :: "config \<Rightarrow> string \<Rightarrow> level \<Rightarrow> state \<Rightarrow> outcome" where
  "add_level_file_handler cfg suffix lvl s =
     (let log_file = os_path_join (log_path cfg) (app_name cfg @ suffix) in
      if log_file \<in> unopenable s then (Inl OSError, s)
      else (Inr (), addHandler \<lparr>dest = File log_file, hlevel = levelno lvl,
                                hfilter = Some (levelno lvl)\<rparr> s))"

text \<open>\<open>_create_logger\<close>; the logger it returns is the object \<open>tubalog\<close> of the state.\<close>

definition create_logger :: "config \<Rightarrow> state \<Rightarrow> outcome" where
  "create_logger cfg s =
     (let s = s\<lparr>tubalog := (tubalog s)\<lparr>handlers := [], propagate := False\<rparr>\<rparr>;
          s = s\<lparr>tubalog := (tubalog s)\<lparr>llevel :=
                  (if debug_mode cfg then levelno DEBUG else levelno INFO)\<rparr>\<rparr>;
          s = addHandler \<lparr>dest = Stdout,
                          hlevel = (if debug_mode cfg then levelno DEBUG else levelno INFO),
                          hfilter = None\<rparr> s
      in
        if log_path cfg \<noteq> [] then
          if multi_file cfg then
            and_then (add_level_file_handler cfg ''_info.log'' INFO s) (\<lambda>s.
            and_then (add_level_file_handler cfg ''_warn.log'' WARNING s) (\<lambda>s.
            and_then (add_level_file_handler cfg ''_error.log'' ERROR s) (\<lambda>s.
            and_then (add_level_file_handler cfg ''_fatal.log'' CRITICAL s) (\<lambda>s.
              if debug_mode cfg then add_level_file_handler cfg ''_debug.log'' DEBUG s
              else (Inr (), s)))))
          else
            (let log_file = os_path_join (log_path cfg) (app_name cfg @ ''.log'') in
             if log_file \<in> unopenable s then (Inl OSError, s)
             else (Inr (), addHandler \<lparr>dest = File log_file,
                     hlevel = (if debug_mode cfg then levelno DEBUG else levelno INFO),
                     hfilter = None\<rparr> s))
        else (Inr (), s))"

text \<open>\<open>init\<close>: the global is assigned only when \<open>_create_logger\<close> returns.\<close>

definition init :: "config \<Rightarrow> state \<Rightarrow> outcome" where
  "init cfg s = and_then (create_logger cfg s) (\<lambda>s. (Inr (), s\<lparr>logger_set := True\<rparr>))"

text \<open>\<open>Config(debug=True)\<close>, the other fields at their defaults.\<close>

definition default_config :: config where
  "default_config = \<lparr>log_path = [], app_name = [], debug_mode = True, multi_file = False\<rparr>"

text \<open>\<open>_get_logger\<close>\<close>

definition get_logger :: "state \<Rightarrow> outcome" where
  "get_logger s =
     (if \<not> logger_set s
      then and_then (create_logger default_config s) (\<lambda>s. (Inr (), s\<lparr>logger_set := True\<rparr>))
      else (Inr (), s))"

subsection \<open>The trace id of the context\<close>

text \<open>
  The token of \<open>ContextVar.set\<close> holds the value the variable had before. Every token of the
  module is reset once, in the context that made it; a second reset of a token, which
  Python refuses, is not modelled.
\<close>

type_synonym token = "string option"

definition with_trace_id :: "string \<Rightarrow> state \<Rightarrow> token \<times> state" where
  "with_trace_id trace_id s = (trace_id_var s, s\<lparr>trace_id_var := Some trace_id\<rparr>)"

definition from_context :: "state \<Rightarrow> string option \<times> bool" where
  "from_context s = (trace_id_var s, trace_id_var s \<noteq> None)"

definition reset_trace_id :: "token \<Rightarrow> state \<Rightarrow> state" where
  "reset_trace_id tok s = s\<lparr>trace_id_var := tok\<rparr>"

subsection \<open>The logging functions\<close>

text \<open>
  In \<open>_get_logger().debug(expr)\<close> Python evaluates \<open>_get_logger()\<close> first, then the argument
  \<open>expr\<close>, and only then calls the method: the message is rendered before the logger
  compares levels, and an exception of the rendering leaves the function at once.
  In the formatted variants the template is \<open>msg\<close> of the source.
\<close>

definition debug :: "pyval list \<Rightarrow> state \<Rightarrow> outcome" where
  "debug args s =
     and_then (get_logger s) (\<lambda>s.
       case join_args args of
         Inl e \<Rightarrow> (Inl e, s)
       | Inr m \<Rightarrow> (Inr (), Logger_debug m s))"

definition debugf :: "string \<Rightarrow> pyval list \<Rightarrow> state \<Rightarrow> outcome" where
  "debugf template args s =
     and_then (get_logger s) (\<lambda>s.
       case (if args \<noteq> [] then py_percent (percent_tail s) template args else Inr template) of
         Inl e \<Rightarrow> (Inl e, s)
       | Inr m \<Rightarrow> (Inr (), Logger_debug m s))"

definition info :: "pyval list \<Rightarrow> state \<Rightarrow> outcome" where
  "info args s =
     and_then (get_logger s) (\<lambda>s.
       case join_args args of
         Inl e \<Rightarrow> (Inl e, s)
       | Inr m \<Rightarrow> (Inr (), Logger_info m s))"

definition infof :: "string \<Rightarrow> pyval list \<Rightarrow> state \<Rightarrow> outcome" where
  "infof template args s =
     and_then (get_logger s) (\<lambda>s.
       case (if args \<noteq> [] then py_percent (percent_tail s) template args else Inr template) of
         Inl e \<Rightarrow> (Inl e, s)
       | Inr m \<Rightarrow> (Inr (), Logger_info m s))"

definition warn :: "pyval list \<Rightarrow> state \<Rightarrow> outcome" where
  "warn args s =
     and_then (get_logger s) (\<lambda>s.
       case join_args args of
         Inl e \<Rightarrow> (Inl e, s)
       | Inr m \<Rightarrow> (Inr (), Logger_warning m s))"

definition warnf :: "string \<Rightarrow> pyval list \<Rightarrow> state \<Rightarrow> outcome" where
  "warnf template args s =
     and_then (get_logger s) (\<lambda>s.
       case (if args \<noteq> [] then py_percent (percent_tail s) template args else Inr template) of
         Inl e \<Rightarrow> (Inl e, s)
       | Inr m \<Rightarrow> (Inr (), Logger_warning m s))"

definition error :: "pyval list \<Rightarrow> state \<Rightarrow> outcome" where
  "error args s =
     and_then (get_logger s) (\<lambda>s.
       case join_args args of
         Inl e \<Rightarrow> (Inl e, s)
       | Inr m \<Rightarrow> (Inr (), Logger_error m s))"

definition errorf :: "string \<Rightarrow> pyval list \<Rightarrow> state \<Rightarrow> outcome" where
  "errorf template args s =
     and_then (get_logger s) (\<lambda>s.
       case (if args \<noteq> [] then py_percent (percent_tail s) template args else Inr template) of
         Inl e \<Rightarrow> (Inl e, s)
       | Inr m \<Rightarrow> (Inr (), Logger_error m s))"

text \<open>\<open>fatal\<close> and \<open>fatalf\<close> end with \<open>sys.exit(1)\<close>, which raises \<open>SystemExit(1)\<close>.\<close>

definition fatal :: "pyval list \<Rightarrow> state \<Rightarrow> outcome" where
  "fatal args s =
     and_then (get_logger s) (\<lambda>s.
       case join_args args of
         Inl e \<Rightarrow> (Inl e, s)
       | Inr m \<Rightarrow> (Inl (SystemExit 1), Logger_critical m s))"

definition fatalf :: "string \<Rightarrow> pyval list \<Rightarrow> state \<Rightarrow> outcome" where
  "fatalf template args s =
     and_then (get_logger s) (\<lambda>s.
       case (if args \<noteq> [] then py_percent (percent_tail s) template args else Inr template) of
         Inl e \<Rightarrow> (Inl e, s)
       | Inr m \<Rightarrow> (Inl (SystemExit 1), Logger_critical m s))"

subsection \<open>The logging functions with a trace id\<close>

text \<open>\<open>try: ... finally: reset_trace_id(token)\<close>: the reset runs whether the call returned or
  raised, and the outcome of the call is the outcome of the whole.\<close>

definition ctx_debug :: "string \<Rightarrow> pyval list \<Rightarrow> state \<Rightarrow> outcome" where
  "ctx_debug trace_id args s =
     (let (tok, s) = with_trace_id trace_id s;
          (r, s) = debug args s
      in (r, reset_trace_id tok s))"

definition ctx_debugf :: "string \<Rightarrow> string \<Rightarrow> pyval list \<Rightarrow> state \<Rightarrow> outcome" where
  "ctx_debugf trace_id template args s =
     (let (tok, s) = with_trace_id trace_id s;
          (r, s) = debugf template args s
      in (r, reset_trace_id tok s))"

definition ctx_info :: "string \<Rightarrow> pyval list \<Rightarrow> state \<Rightarrow> outcome" where
  "ctx_info trace_id args s =
     (let (tok, s) = with_trace_id trace_id s;
          (r, s) = info args s
      in (r, reset_trace_id tok s))"

definition ctx_infof :: "string \<Rightarrow> string \<Rightarrow> pyval list \<Rightarrow> state \<Rightarrow> outcome" where
  "ctx_infof trace_id template args s =
     (let (tok, s) = with_trace_id trace_id s;
          (r, s) = infof template args s
      in (r, reset_trace_id tok s))"

definition ctx_warn :: "string \<Rightarrow> pyval list \<Rightarrow> state \<Rightarrow> outcome" where
  "ctx_warn trace_id args s =
     (let (tok, s) = with_trace_id trace_id s;
          (r, s) = warn args s
      in (r, reset_trace_id tok s))"

definition ctx_warnf :: "string \<Rightarrow> string \<Rightarrow> pyval list \<Rightarrow> state \<Rightarrow> outcome" where
  "ctx_warnf trace_id template args s =
     (let (tok, s) = with_trace_id trace_id s;
          (r, s) = warnf template args s
      in (r, reset_trace_id tok s))"

definition ctx_error :: "string \<Rightarrow> pyval list \<Rightarrow> state \<Rightarrow> outcome" where
  "ctx_error trace_id args s =
     (let (tok, s) = with_trace_id trace_id s;
          (r, s) = error args s
      in (r, reset_trace_id tok s))"

definition ctx_errorf :: "string \<Rightarrow> string \<Rightarrow> pyval list \<Rightarrow> state \<Rightarrow> outcome" where
  "ctx_errorf trace_id template args s =
     (let (tok, s) = with_trace_id trace_id s;
          (r, s) = errorf template args s
      in (r, reset_trace_id tok s))"

subsection \<open>Calls\<close>

text \<open>The calls of the public logging functions, to speak about all of them at once.\<close>

datatype call =
    Debug "pyval list" | Debugf string "pyval list"
  | Info "pyval list" | Infof string "pyval list"
  | Warn "pyval list" | Warnf string "pyval list"
  | Error "pyval list" | Errorf string "pyval list"
  | Fatal "pyval list" | Fatalf string "pyval list"
  | CtxDebug string "pyval list" | CtxDebugf string string "pyval list"
  | CtxInfo string "pyval list" | CtxInfof string string "pyval list"
  | CtxWarn string "pyval list" | CtxWarnf string string "pyval list"
  | CtxError string "pyval list" | CtxErrorf string string "pyval list"

fun run :: "call \<Rightarrow> state \<Rightarrow> outcome" where
  "run (Debug args) s = debug args s"
| "run (Debugf t args) s = debugf t args s"
| "run (Info args) s = info args s"
| "run (Infof t args) s = infof t args s"
| "run (Warn args) s = warn args s"
| "run (Warnf t args) s = warnf t args s"
| "run (Error args) s = error args s"
| "run (Errorf t args) s = errorf t args s"
| "run (Fatal args) s = fatal args s"
| "run (Fatalf t args) s = fatalf t args s"
| "run (CtxDebug tid args) s = ctx_debug tid args s"
| "run (CtxDebugf tid t args) s = ctx_debugf tid t args s"
| "run (CtxInfo tid args) s = ctx_info tid args s"
| "run (CtxInfof tid t args) s = ctx_infof tid t args s"
| "run (CtxWarn tid args) s = ctx_warn tid args s"
| "run (CtxWarnf tid t args) s = ctx_warnf tid t args s"
| "run (CtxError tid args) s = ctx_error tid args s"
| "run (CtxErrorf tid t args) s = ctx_errorf tid t args s"

text \<open>The level a call logs at, the message it renders, and the trace id it installs.\<close>

fun call_level :: "call \<Rightarrow> level" where
  "call_level (Debug args) = DEBUG"
| "call_level (Debugf t args) = DEBUG"
| "call_level (Info args) = INFO"
| "call_level (Infof t args) = INFO"
| "call_level (Warn args) = WARNING"
| "call_level (Warnf t args) = WARNING"
| "call_level (Error args) = ERROR"
| "call_level (Errorf t args) = ERROR"
| "call_level (Fatal args) = CRITICAL"
| "call_level (Fatalf t args) = CRITICAL"
| "call_level (CtxDebug tid args) = DEBUG"
| "call_level (CtxDebugf tid t args) = DEBUG"
| "call_level (CtxInfo tid args) = INFO"
| "call_level (CtxInfof tid t args) = INFO"
| "call_level (CtxWarn tid args) = WARNING"
| "call_level (CtxWarnf tid t args) = WARNING"
| "call_level (CtxError tid args) = ERROR"
| "call_level (CtxErrorf tid t args) = ERROR"

definition interpolate :: "state \<Rightarrow> string \<Rightarrow> pyval list \<Rightarrow> exn + string" where
  "interpolate s t args = (if args \<noteq> [] then py_percent (percent_tail s) t args else Inr t)"

fun rendering :: "state \<Rightarrow> call \<Rightarrow> exn + string" where
  "rendering s (Debug args) = join_args args"
| "rendering s (Debugf t args) = interpolate s t args"
| "rendering s (Info args) = join_args args"
| "rendering s (Infof t args) = interpolate s t args"
| "rendering s (Warn args) = join_args args"
| "rendering s (Warnf t args) = interpolate s t args"
| "rendering s (Error args) = join_args args"
| "rendering s (Errorf t args) = interpolate s t args"
| "rendering s (Fatal args) = join_args args"
| "rendering s (Fatalf t args) = interpolate s t args"
| "rendering s (CtxDebug tid args) = join_args args"
| "rendering s (CtxDebugf tid t args) = interpolate s t args"
| "rendering s (CtxInfo tid args) = join_args args"
| "rendering s (CtxInfof tid t args) = interpolate s t args"
| "rendering s (CtxWarn tid args) = join_args args"
| "rendering s (CtxWarnf tid t args) = interpolate s t args"
| "rendering s (CtxError tid args) = join_args args"
| "rendering s (CtxErrorf tid t args) = interpolate s t args"

fun call_trace_id :: "call \<Rightarrow> string option" where
  "call_trace_id (CtxDebug tid args) = Some tid"
| "call_trace_id (CtxDebugf tid t args) = Some tid"
| "call_trace_id (CtxInfo tid args) = Some tid"
| "call_trace_id (CtxInfof tid t args) = Some tid"
| "call_trace_id (CtxWarn tid args) = Some tid"
| "call_trace_id (CtxWarnf tid t args) = Some tid"
| "call_trace_id (CtxError tid args) = Some tid"
| "call_trace_id (CtxErrorf tid t args) = Some tid"
| "call_trace_id c = None"

text \<open>The call that a \<open>ctx_*\<close> function makes inside its scope.\<close>

fun inner_call :: "call \<Rightarrow> call" where
  "inner_call (CtxDebug tid args) = Debug args"
| "inner_call (CtxDebugf tid t args) = Debugf t args"
| "inner_call (CtxInfo tid args) = Info args"
| "inner_call (CtxInfof tid t args) = Infof t args"
| "inner_call (CtxWarn tid args) = Warn args"
| "inner_call (CtxWarnf tid t args) = Warnf t args"
| "inner_call (CtxError tid args) = Error args"
| "inner_call (CtxErrorf tid t args) = Errorf t args"
| "inner_call c = c"

section \<open>Notions for the statements\<close>

text \<open>Classes of characters: no control character; beyond ASCII; a decimal digit.\<close>

definition printable :: "char \<Rightarrow> bool" where
  "printable c = (32 \<le> (of_char c :: nat))"

definition non_ascii :: "char \<Rightarrow> bool" where
  "non_ascii c = (128 \<le> (of_char c :: nat))"

definition is_digit :: "char \<Rightarrow> bool" where
  "is_digit c = (48 \<le> (of_char c :: nat) \<and> (of_char c :: nat) \<le> 57)"

text \<open>
  \<open>lines_for lvl m s\<close> lists, in the order of the handlers, what a record of level \<open>lvl\<close> with
  message \<open>m\<close> and no exception attached is to put on which destination in state \<open>s\<close>.
  \<open>scope c s\<close> is the state in which the call \<open>c\<close> logs: \<open>s\<close> with the trace id of a
  \<open>ctx_*\<close> call installed. \<open>default_logger\<close> is the logger of \<open>Config(debug=True)\<close>,
  \<open>initialised s\<close> is \<open>s\<close> after \<open>_get_logger()\<close>, and \<open>exit_of c\<close> is what a call returns
  or raises once its record is handled.
\<close>

definition lines_for :: "level \<Rightarrow> string \<Rightarrow> state \<Rightarrow> (destination \<times> string) list" where
  "lines_for lvl m s =
     (if isEnabledFor (tubalog s) lvl
      then map (\<lambda>h. (dest h, JSONFormatter_format \<lparr>rec_level = lvl, getMessage = m, exc_info = None\<rparr> s))
             (filter (\<lambda>h. hlevel h \<le> levelno lvl \<and>
                          (hfilter h = None \<or> hfilter h = Some (levelno lvl)))
                (handlers (tubalog s)))
      else [])"

definition scope :: "call \<Rightarrow> state \<Rightarrow> state" where
  "scope c s = (case call_trace_id c of None \<Rightarrow> s | Some t \<Rightarrow> s\<lparr>trace_id_var := Some t\<rparr>)"

definition default_logger :: logger where
  "default_logger =
     \<lparr>llevel = 10, handlers = [\<lparr>dest = Stdout, hlevel = 10, hfilter = None\<rparr>],
      propagate = False\<rparr>"

definition initialised :: "state \<Rightarrow> state" where
  "initialised s = (if logger_set s then s else s\<lparr>tubalog := default_logger, logger_set := True\<rparr>)"

definition exit_of :: "call \<Rightarrow> exn + unit" where
  "exit_of c = (if call_level c = CRITICAL then Inl (SystemExit 1) else Inr ())"

text \<open>The dictionary that \<open>JSONFormatter.format\<close> builds, as one expression.\<close>

definition fields_of :: "log_record \<Rightarrow> state \<Rightarrow> (string \<times> string) list" where
  "fields_of r s =
     [(''level'', lower (levelname (rec_level r))), (''event_time'', str_nat (clock s)),
      (''msg'', getMessage r)]
     @ (case trace_id_var s of None \<Rightarrow> [] | Some t \<Rightarrow> [(''trace_id'', t)])
     @ (case exc_info r of None \<Rightarrow> []
        | Some tb \<Rightarrow> if levelno (rec_level r) \<ge> 30 then [(''stacktrace'', tb)] else [])"

text \<open>What \<open>_create_logger\<close> keeps true of every handler it adds for a logger of level
  \<open>base\<close>.\<close>

definition sink_ok :: "config \<Rightarrow> int \<Rightarrow> handler \<Rightarrow> bool" where
  "sink_ok cfg base h =
     (base \<le> hlevel h
      \<and> (if dest h = Stdout \<or> \<not> multi_file cfg then hfilter h = None
         else hfilter h = Some (hlevel h)))"

text \<open>
  The lines a step has added, and a member of a line read as a JSON object (\<open>None\<close> when
  the line is no such object or lacks the key).
\<close>

definition new_lines :: "state \<Rightarrow> state \<Rightarrow> (destination \<times> string) list" where
  "new_lines s s' = drop (length (written s)) (written s')"

definition field :: "string \<Rightarrow> string \<Rightarrow> string option" where
  "field k line = (case json_loads line of None \<Rightarrow> None | Some entry \<Rightarrow> map_of entry k)"

subsection \<open>Examples\<close>

text \<open>
  \<open>fresh\<close> is a process that has imported the module and logged nothing yet, at the second
  1700000000 of the clock, on a file system that opens every log file; its \<open>percent_tail\<close>
  is of no account, as no example has a conversion left to it. \<open>multi_cfg\<close> is
  \<open>Config(log_path="/var/log", app_name="test", multi_file=True)\<close>, and \<open>info_cfg\<close> is
  \<open>Config(app_name="test", debug=False)\<close>, the configuration of the module's tests.
\<close>

definition fresh :: state where
  "fresh = \<lparr>tubalog = \<lparr>llevel = 0, handlers = [], propagate = True\<rparr>, logger_set = False,
            trace_id_var = None, clock = 1700000000, written = [], unopenable = {},
            percent_tail = (\<lambda>rest args. Inl ValueError)\<rparr>"

definition multi_cfg :: config where
  "multi_cfg =
     \<lparr>log_path = ''/var/log'', app_name = ''test'', debug_mode = False, multi_file = True\<rparr>"

definition info_cfg :: config where
  "info_cfg = \<lparr>log_path = [], app_name = ''test'', debug_mode = False, multi_file = False\<rparr>"

section \<open>The JSON encoding reads back\<close>

lemma hex_val_hex_digit: "k < 16 \<Longrightarrow> hex_val (hex_digit k) = Some k"
  by (auto simp: hex_val_def hex_digit_def Let_def)

lemma hex4_control:
  assumes "n < 32"
  shows "hex4 CHR ''0'' CHR ''0'' (hex_digit (n div 16)) (hex_digit (n mod 16)) = Some n"
proof -
  have z: "hex_val CHR ''0'' = Some 0" by (simp add: hex_val_def)
  have "n div 16 < 16" using assms by simp
  then have a: "hex_val (hex_digit (n div 16)) = Some (n div 16)" by (rule hex_val_hex_digit)
  have b: "hex_val (hex_digit (n mod 16)) = Some (n mod 16)" by (rule hex_val_hex_digit) simp
  show ?thesis by (simp add: hex4_def z a b)
qed

text \<open>Reading back one escaped character gives the character.\<close>

lemma scanstring_escape_char:
  "scanstring (escape_char c @ rest) = cons_fst c (scanstring rest)"
proof -
  consider (named) "c \<in> {backslash, dquote, CHR 0x08, CHR 0x0C, CHR 0x0A, CHR 0x0D, CHR 0x09}"
    | (ctrl) "c \<notin> {backslash, dquote, CHR 0x08, CHR 0x0C, CHR 0x0A, CHR 0x0D, CHR 0x09}"
        "(of_char c :: nat) < 0x20"
    | (plain) "c \<notin> {backslash, dquote, CHR 0x08, CHR 0x0C, CHR 0x0A, CHR 0x0D, CHR 0x09}"
        "\<not> (of_char c :: nat) < 0x20"
    by blast
  then show ?thesis
  proof cases
    case named
    then show ?thesis
      by (auto simp: escape_char_def unescape_simple_def backslash_def dquote_def)
  next
    case ctrl
    have "hex4 CHR ''0'' CHR ''0'' (hex_digit ((of_char c :: nat) div 16))
            (hex_digit ((of_char c :: nat) mod 16)) = Some (of_char c)"
      using ctrl(2) by (intro hex4_control) simp
    with ctrl show ?thesis
      by (simp add: escape_char_def backslash_def dquote_def)
  next
    case plain
    then show ?thesis
      by (simp add: escape_char_def)
  qed
qed

lemma scanstring_escaped:
  "scanstring (concat (map escape_char x) @ dquote # rest) = Some (x, rest)"
  by (induction x) (simp_all add: scanstring_escape_char cons_fst_def)

lemma parse_pair_encode_item:
  "parse_pair (encode_item kv @ rest) = Some (kv, rest)"
  by (simp add: parse_pair_def encode_item_def py_encode_basestring_def scanstring_escaped)

lemma parse_members_encoded:
  "parse_members (join '','' (map encode_item (kv # kvs)) @ ''}'') = Some (kv # kvs)"
proof (induction kvs arbitrary: kv)
  case Nil
  show ?case
    using parse_pair_encode_item [of kv "''}''"] by (simp add: parse_members.simps)
next
  case (Cons a kvs)
  have "parse_pair (encode_item kv @ '','' @ join '','' (map encode_item (a # kvs)) @ ''}'')
          = Some (kv, '','' @ join '','' (map encode_item (a # kvs)) @ ''}'')"
    by (rule parse_pair_encode_item)
  with Cons.IH [of a] show ?case
    by (subst parse_members.simps) simp
qed

lemma encode_item_starts: "\<exists>r. encode_item kv = dquote # r"
  by (simp add: encode_item_def py_encode_basestring_def)

text \<open>Every dictionary of strings that \<open>json_dumps\<close> writes reads back as itself.\<close>

lemma json_loads_dumps: "json_loads (json_dumps d) = Some d"
proof (cases d)
  case Nil
  then show ?thesis by (simp add: json_loads_def json_dumps_def)
next
  case (Cons kv kvs)
  obtain r where r: "encode_item kv = dquote # r" using encode_item_starts by blast
  have "join '','' (map encode_item (kv # kvs)) @ ''}'' \<noteq> ''}''"
    by (cases kvs) (simp_all add: r dquote_def)
  with parse_members_encoded [of kv kvs] Cons show ?thesis
    by (simp add: json_loads_def json_dumps_def)
qed

section \<open>Characters of the encoding\<close>

lemma digit_char_is_digit: "n < 10 \<Longrightarrow> is_digit (digit_char n)"
  by (simp add: is_digit_def digit_char_def)

lemma str_nat_digits: "list_all is_digit (str_nat n) \<and> str_nat n \<noteq> []"
proof (induction n rule: str_nat.induct)
  case (1 n)
  show ?case
  proof (cases "n < 10")
    case True
    then show ?thesis by (subst (1 2) str_nat.simps) (simp add: digit_char_is_digit)
  next
    case False
    have "n mod 10 < 10" by simp
    then have "is_digit (digit_char (n mod 10))" by (rule digit_char_is_digit)
    with False "1.IH" show ?thesis by (subst (1 2) str_nat.simps) simp
  qed
qed

lemma hex_digit_range:
  "k < 16 \<Longrightarrow> printable (hex_digit k) \<and> \<not> non_ascii (hex_digit k)"
  by (simp add: hex_digit_def printable_def non_ascii_def)

lemma punct_printable:
  "printable CHR '',''" "printable CHR '':''" "printable CHR ''{''" "printable CHR ''}''"
  "printable dquote" "printable backslash"
  by (simp_all add: printable_def dquote_def backslash_def)

lemma punct_ascii:
  "\<not> non_ascii CHR '',''" "\<not> non_ascii CHR '':''" "\<not> non_ascii CHR ''{''"
  "\<not> non_ascii CHR ''}''" "\<not> non_ascii dquote" "\<not> non_ascii backslash"
  by (simp_all add: non_ascii_def dquote_def backslash_def)

lemma escape_char_printable: "list_all printable (escape_char c)"
proof -
  have a: "(of_char c :: nat) < 32 \<Longrightarrow> printable (hex_digit ((of_char c :: nat) div 16))"
    using hex_digit_range [of "(of_char c :: nat) div 16"] by simp
  have b: "printable (hex_digit ((of_char c :: nat) mod 16))"
    using hex_digit_range [of "(of_char c :: nat) mod 16"] by simp
  have c: "\<not> (of_char c :: nat) < 32 \<Longrightarrow> printable c"
    by (simp add: printable_def)
  show ?thesis
    using a b c by (simp add: escape_char_def punct_printable) (simp add: printable_def)
qed

lemma escape_char_non_ascii: "filter non_ascii (escape_char c) = filter non_ascii [c]"
proof -
  have a: "(of_char c :: nat) < 32 \<Longrightarrow> \<not> non_ascii (hex_digit ((of_char c :: nat) div 16))"
    using hex_digit_range [of "(of_char c :: nat) div 16"] by simp
  have b: "\<not> non_ascii (hex_digit ((of_char c :: nat) mod 16))"
    using hex_digit_range [of "(of_char c :: nat) mod 16"] by simp
  have c: "(of_char c :: nat) < 32 \<Longrightarrow> \<not> non_ascii c"
    by (simp add: non_ascii_def)
  show ?thesis
    using a b c by (simp add: escape_char_def punct_ascii) (simp add: non_ascii_def)
qed

lemma encode_printable: "list_all printable (py_encode_basestring x)"
proof -
  have "list_all printable (concat (map escape_char x))"
    by (induction x) (simp_all add: escape_char_printable)
  then show ?thesis by (simp add: py_encode_basestring_def punct_printable)
qed

lemma encode_non_ascii: "filter non_ascii (py_encode_basestring x) = filter non_ascii x"
proof -
  have "filter non_ascii (concat (map escape_char x)) = filter non_ascii x"
  proof (induction x)
    case Nil show ?case by simp
  next
    case (Cons c x)
    have "filter non_ascii (concat (map escape_char (c # x)))
            = filter non_ascii (escape_char c) @ filter non_ascii (concat (map escape_char x))"
      by simp
    also have "\<dots> = filter non_ascii [c] @ filter non_ascii x"
      by (simp only: escape_char_non_ascii Cons.IH)
    finally show ?case by simp
  qed
  then show ?thesis by (simp add: py_encode_basestring_def punct_ascii)
qed

lemma encode_item_printable: "list_all printable (encode_item kv)"
  by (simp add: encode_item_def encode_printable punct_printable)

lemma join_items_printable:
  "list_all printable (join '','' (map encode_item d))"
proof (induction d rule: induct_list012)
  case 1 show ?case by simp
next
  case (2 x) show ?case by (simp add: encode_item_printable)
next
  case (3 x y zs)
  then show ?case by (simp add: encode_item_printable punct_printable)
qed

lemma json_dumps_printable: "list_all printable (json_dumps d)"
  using join_items_printable [of d] by (simp add: json_dumps_def punct_printable)

lemma encode_item_non_ascii:
  "filter non_ascii (encode_item kv) = filter non_ascii (fst kv @ snd kv)"
  by (simp add: encode_item_def encode_non_ascii punct_ascii)

lemma join_items_non_ascii:
  "filter non_ascii (join '','' (map encode_item d))
     = filter non_ascii (concat (map (\<lambda>kv. fst kv @ snd kv) d))"
proof (induction d rule: induct_list012)
  case 1 show ?case by simp
next
  case (2 x) show ?case by (simp add: encode_item_non_ascii)
next
  case (3 x y zs)
  then show ?case by (simp add: encode_item_non_ascii punct_ascii)
qed

lemma json_dumps_non_ascii:
  "filter non_ascii (json_dumps d) = filter non_ascii (concat (map (\<lambda>kv. fst kv @ snd kv) d))"
  using join_items_non_ascii [of d] by (simp add: json_dumps_def punct_ascii)

section \<open>What a call does\<close>

lemma format_written [simp]:
  "JSONFormatter_format r (s\<lparr>written := w\<rparr>) = JSONFormatter_format r s"
  by (simp add: JSONFormatter_format_def)

lemma format_initialised [simp]:
  "JSONFormatter_format r (initialised s) = JSONFormatter_format r s"
  by (simp add: JSONFormatter_format_def initialised_def)

lemma callHandlers_eq:
  "callHandlers hs r s =
     s\<lparr>written := written s @
          map (\<lambda>h. (dest h, JSONFormatter_format r s))
            (filter (\<lambda>h. hlevel h \<le> levelno (rec_level r) \<and>
                         (hfilter h = None \<or> hfilter h = Some (levelno (rec_level r)))) hs)\<rparr>"
proof (induction hs arbitrary: s)
  case Nil
  show ?case by simp
next
  case (Cons h hs)
  show ?case
    by (auto simp add: Cons.IH handle_def emit_def LevelFilter_filter_def split: option.splits)
qed

lemma Logger_methods:
  "Logger_debug m s = s\<lparr>written := written s @ lines_for DEBUG m s\<rparr>"
  "Logger_info m s = s\<lparr>written := written s @ lines_for INFO m s\<rparr>"
  "Logger_warning m s = s\<lparr>written := written s @ lines_for WARNING m s\<rparr>"
  "Logger_error m s = s\<lparr>written := written s @ lines_for ERROR m s\<rparr>"
  "Logger_critical m s = s\<lparr>written := written s @ lines_for CRITICAL m s\<rparr>"
  by (simp_all add: Logger_debug_def Logger_info_def Logger_warning_def Logger_error_def
      Logger_critical_def Logger_log_def callHandlers_eq lines_for_def)

lemma get_logger_eq:
  "get_logger s = (Inr (), if logger_set s then s else s\<lparr>tubalog := default_logger, logger_set := True\<rparr>)"
  by (simp add: get_logger_def create_logger_def default_config_def and_then_def addHandler_def
      default_logger_def Let_def)

lemma lines_for_written [simp]:
  "lines_for lvl m (s\<lparr>written := w\<rparr>) = lines_for lvl m s"
  by (simp add: lines_for_def)

lemma tubalog_scope [simp]: "tubalog (scope c s) = tubalog s"
  by (simp add: scope_def split: option.splits)

lemma scope_plain [simp]: "call_trace_id c = None \<Longrightarrow> scope c s = s"
  by (simp add: scope_def)

lemma initialised_set [simp]: "logger_set s \<Longrightarrow> initialised s = s"
  by (simp add: initialised_def)

lemma written_initialised [simp]: "written (initialised s) = written s"
  by (simp add: initialised_def)

lemma trace_initialised [simp]: "trace_id_var (initialised s) = trace_id_var s"
  by (simp add: initialised_def)

lemma run_eq:
  "run c s =
     (case rendering s c of
        Inl e \<Rightarrow> (Inl e, initialised s)
      | Inr m \<Rightarrow>
          (exit_of c,
           (initialised s)\<lparr>written := written s @ lines_for (call_level c) m (scope c (initialised s))\<rparr>))"
  by (cases c)
     (simp_all add: debug_def debugf_def info_def infof_def warn_def warnf_def error_def
        errorf_def fatal_def fatalf_def ctx_debug_def ctx_debugf_def ctx_info_def ctx_infof_def
        ctx_warn_def ctx_warnf_def ctx_error_def ctx_errorf_def with_trace_id_def
        reset_trace_id_def get_logger_eq and_then_def Logger_methods initialised_def scope_def
        exit_of_def interpolate_def lines_for_def JSONFormatter_format_def split: sum.splits)

lemma run_fst:
  "fst (run c s) = (case rendering s c of Inl e \<Rightarrow> Inl e | Inr m \<Rightarrow> exit_of c)"
  by (simp add: run_eq split: sum.splits)

lemma run_new_lines:
  "new_lines s (snd (run c s)) =
     (case rendering s c of
        Inl e \<Rightarrow> []
      | Inr m \<Rightarrow> lines_for (call_level c) m (scope c (initialised s)))"
  by (simp add: run_eq new_lines_def split: sum.splits)

lemma run_prefix: "written (snd (run c s)) = written s @ new_lines s (snd (run c s))"
  by (simp add: run_eq new_lines_def split: sum.splits)

lemma run_frame:
  "trace_id_var (snd (run c s)) = trace_id_var s \<and> clock (snd (run c s)) = clock s
   \<and> unopenable (snd (run c s)) = unopenable s \<and> logger_set (snd (run c s))
   \<and> tubalog (snd (run c s)) = tubalog (initialised s)"
  by (simp add: run_eq initialised_def split: sum.splits)

lemma ctx_run:
  assumes "call_trace_id c = Some tid"
  shows "run c s =
           (fst (run (inner_call c) (s\<lparr>trace_id_var := Some tid\<rparr>)),
            (snd (run (inner_call c) (s\<lparr>trace_id_var := Some tid\<rparr>)))\<lparr>trace_id_var := trace_id_var s\<rparr>)"
  using assms
  by (cases c)
     (simp_all add: ctx_debug_def ctx_debugf_def ctx_info_def ctx_infof_def ctx_warn_def
        ctx_warnf_def ctx_error_def ctx_errorf_def with_trace_id_def reset_trace_id_def
        split: prod.splits)

lemma join_args_strings: "join_args (map PyStr xs) = Inr (join '' '' xs)"
proof -
  have "str_all (map PyStr xs) = Inr xs" by (induction xs) simp_all
  then show ?thesis by (simp add: join_args_def)
qed

lemma below_threshold_lines:
  "levelno lvl < getEffectiveLevel (tubalog s) \<Longrightarrow> lines_for lvl m s = []"
  by (simp add: lines_for_def isEnabledFor_def)

section \<open>Interpolation is positional substitution\<close>

lemma prepend_nil [simp]: "prepend [] r = r"
  by (cases r) (simp_all add: prepend_def)

lemma prepend_prepend [simp]: "prepend a (prepend b r) = prepend (a @ b) r"
  by (cases r) (simp_all add: prepend_def)

text \<open>Text without a percent sign is copied.\<close>

lemma py_percent_text:
  "CHR ''%'' \<notin> set x \<Longrightarrow> py_percent tail (x @ rest) args = prepend x (py_percent tail rest args)"
  by (induction x) auto

text \<open>On a template of text, \<open>%s\<close>, \<open>%d\<close> and \<open>%%\<close> the operator fills the placeholders with
  the arguments in their order, whatever the parameter.\<close>

lemma py_percent_pieces:
  "list_all plain_text ps \<Longrightarrow> py_percent tail (template_of ps) args = substitute ps args"
proof (induction ps arbitrary: args)
  case Nil
  show ?case by (simp add: template_of_def)
next
  case (Cons p ps)
  from Cons.prems have rest: "list_all plain_text ps" by simp
  note IH = Cons.IH [OF rest]
  have split: "template_of (q # ps) = piece_text q @ template_of ps" for q
    by (simp add: template_of_def)
  show ?case
  proof (cases p)
    case (Text x)
    with Cons.prems have "CHR ''%'' \<notin> set x" by simp
    then show ?thesis by (simp add: split Text py_percent_text IH)
  next
    case Str_conv
    show ?thesis by (cases args) (simp_all add: split Str_conv IH split: sum.splits)
  next
    case Int_conv
    show ?thesis by (cases args) (simp_all add: split Int_conv IH split: sum.splits)
  next
    case Percent_sign
    show ?thesis by (simp add: split Percent_sign IH)
  qed
qed

section \<open>The members of a formatted line\<close>

lemma levelname_lower_ascii: "filter non_ascii (lower (levelname l)) = []"
  by (cases l) (simp_all add: lower_def lower_char_def non_ascii_def)

lemma is_digit_ascii: "is_digit c \<Longrightarrow> \<not> non_ascii c"
  by (simp add: is_digit_def non_ascii_def)

lemma str_nat_ascii: "filter non_ascii (str_nat n) = []"
proof -
  have "list_all is_digit (str_nat n)" using str_nat_digits by blast
  then show ?thesis by (auto simp: list_all_iff filter_empty_conv dest: is_digit_ascii)
qed

lemma printable_no_newline: "list_all printable x \<Longrightarrow> CHR 0x0A \<notin> set x \<and> CHR 0x0D \<notin> set x"
  by (auto simp: list_all_iff printable_def)

lemma format_fields: "JSONFormatter_format r s = json_dumps (fields_of r s)"
  by (simp add: JSONFormatter_format_def fields_of_def Let_def split: option.splits)

lemma field_format:
  "field k (JSONFormatter_format r s) = map_of (fields_of r s) k"
  by (simp add: field_def format_fields json_loads_dumps)

lemma lines_for_fields:
  assumes "(d, l) \<in> set (lines_for lvl m s)"
  shows "field ''level'' l = Some (lower (levelname lvl))"
    and "field ''msg'' l = Some m"
    and "field ''trace_id'' l = trace_id_var s"
    and "field ''stacktrace'' l = None"
    and "field ''event_time'' l = Some (str_nat (clock s))"
proof -
  from assms have l: "l = JSONFormatter_format \<lparr>rec_level = lvl, getMessage = m, exc_info = None\<rparr> s"
    by (auto simp: lines_for_def split: if_splits)
  show "field ''level'' l = Some (lower (levelname lvl))"
    and "field ''msg'' l = Some m"
    and "field ''trace_id'' l = trace_id_var s"
    and "field ''stacktrace'' l = None"
    and "field ''event_time'' l = Some (str_nat (clock s))"
    by (simp_all add: l field_format fields_of_def split: option.splits)
qed

lemma lines_for_msg:
  "list_all (\<lambda>dl. field ''msg'' (snd dl) = Some m) (lines_for lvl m s)"
  using lines_for_fields(2) [of _ _ lvl m s] by (auto simp: list_all_iff)

lemma ctx_lines:
  assumes "call_trace_id c = Some tid"
  shows "list_all (\<lambda>dl. field ''trace_id'' (snd dl) = Some tid) (new_lines s (snd (run c s)))"
proof -
  have "field ''trace_id'' l = Some tid" if "(d, l) \<in> set (new_lines s (snd (run c s)))" for d l
  proof (cases "rendering s c")
    case (Inl e)
    with that show ?thesis by (simp add: run_new_lines)
  next
    case (Inr m)
    with that have "(d, l) \<in> set (lines_for (call_level c) m (scope c (initialised s)))"
      by (simp add: run_new_lines)
    from lines_for_fields(3) [OF this] assms show ?thesis by (simp add: scope_def)
  qed
  then show ?thesis by (auto simp: list_all_iff)
qed

section \<open>The loggers that \<open>_create_logger\<close> leaves\<close>

lemma add_level_file_handler_ok:
  assumes "add_level_file_handler cfg suffix lvl s = (res, s')"
    and "list_all (sink_ok cfg base) (handlers (tubalog s))"
    and "base \<le> levelno lvl" and "multi_file cfg"
  shows "list_all (sink_ok cfg base) (handlers (tubalog s')) \<and> llevel (tubalog s') = llevel (tubalog s)"
  using assms
  by (auto simp: add_level_file_handler_def addHandler_def Let_def sink_ok_def split: if_splits)

lemma and_then_cases:
  assumes "and_then x f = (res, s')"
  obtains (stop) e where "x = (Inl e, s')" "res = Inl e"
    | (go) u s1 where "x = (Inr u, s1)" "f s1 = (res, s')"
  using assms by (auto simp: and_then_def split: prod.splits sum.splits)

text \<open>
  An invariant of the state that each \<open>_add_level_file_handler\<close> keeps, whether it returns
  or raises, holds after the five calls of multi-file mode, wherever they stop; the handler
  of DEBUG is added in debug mode only.
\<close>

lemma multi_chain_inv:
  assumes chain: "and_then (add_level_file_handler cfg ''_info.log'' INFO s) (\<lambda>s.
            and_then (add_level_file_handler cfg ''_warn.log'' WARNING s) (\<lambda>s.
            and_then (add_level_file_handler cfg ''_error.log'' ERROR s) (\<lambda>s.
            and_then (add_level_file_handler cfg ''_fatal.log'' CRITICAL s) (\<lambda>s.
              if debug_mode cfg then add_level_file_handler cfg ''_debug.log'' DEBUG s
              else (Inr (), s))))) = (res, s')"
    and step: "\<And>suffix lvl s res s'.
                 add_level_file_handler cfg suffix lvl s = (res, s') \<Longrightarrow>
                 (lvl = DEBUG \<Longrightarrow> debug_mode cfg) \<Longrightarrow> I s \<Longrightarrow> I s'"
    and start: "I s"
  shows "I s'"
proof -
  from chain show ?thesis
  proof (cases rule: and_then_cases)
    case (stop e)
    from step [OF stop(1) _ start] show ?thesis by simp
  next
    case (go u1 s1)
    from step [OF go(1) _ start] have k1: "I s1" by simp
    from go(2) show ?thesis
    proof (cases rule: and_then_cases)
      case (stop e)
      from step [OF stop(1) _ k1] show ?thesis by simp
    next
      case (go u2 s2)
      from step [OF go(1) _ k1] have k2: "I s2" by simp
      from go(2) show ?thesis
      proof (cases rule: and_then_cases)
        case (stop e)
        from step [OF stop(1) _ k2] show ?thesis by simp
      next
        case (go u3 s3)
        from step [OF go(1) _ k2] have k3: "I s3" by simp
        from go(2) show ?thesis
        proof (cases rule: and_then_cases)
          case (stop e)
          from step [OF stop(1) _ k3] show ?thesis by simp
        next
          case (go u4 s4)
          from step [OF go(1) _ k3] have k4: "I s4" by simp
          show ?thesis
          proof (cases "debug_mode cfg")
            case True
            with go(2) have "add_level_file_handler cfg ''_debug.log'' DEBUG s4 = (res, s')"
              by simp
            from step [OF this _ k4] True show ?thesis by simp
          next
            case False
            with go(2) k4 show ?thesis by simp
          qed
        qed
      qed
    qed
  qed
qed

text \<open>The level of the logger that \<open>_create_logger\<close> leaves, and its handlers.\<close>

lemma create_logger_sinks:
  assumes "create_logger cfg s0 = (res, s1)"
  shows "llevel (tubalog s1) = (if debug_mode cfg then 10 else 20)
         \<and> list_all (sink_ok cfg (llevel (tubalog s1))) (handlers (tubalog s1))"
proof (cases "log_path cfg \<noteq> [] \<and> multi_file cfg")
  case False
  with assms show ?thesis
    by (auto simp: create_logger_def addHandler_def Let_def sink_ok_def split: if_splits)
next
  case True
  define base :: int where "base = (if debug_mode cfg then 10 else 20)"
  define s where "s = addHandler \<lparr>dest = Stdout,
                          hlevel = (if debug_mode cfg then levelno DEBUG else levelno INFO),
                          hfilter = None\<rparr>
       (s0\<lparr>tubalog := (tubalog s0)\<lparr>handlers := [], propagate := False,
             llevel := (if debug_mode cfg then levelno DEBUG else levelno INFO)\<rparr>\<rparr>)"
  let ?I = "\<lambda>s. list_all (sink_ok cfg base) (handlers (tubalog s)) \<and> llevel (tubalog s) = base"
  have start: "?I s"
    by (simp add: s_def base_def addHandler_def sink_ok_def)
  from assms True have chain: "and_then (add_level_file_handler cfg ''_info.log'' INFO s) (\<lambda>s.
            and_then (add_level_file_handler cfg ''_warn.log'' WARNING s) (\<lambda>s.
            and_then (add_level_file_handler cfg ''_error.log'' ERROR s) (\<lambda>s.
            and_then (add_level_file_handler cfg ''_fatal.log'' CRITICAL s) (\<lambda>s.
              if debug_mode cfg then add_level_file_handler cfg ''_debug.log'' DEBUG s
              else (Inr (), s))))) = (res, s1)"
    by (simp add: create_logger_def Let_def s_def)
  have "?I s1"
  proof (rule multi_chain_inv [where I = ?I, OF chain _ start])
    fix suffix lvl s res s'
    assume add: "add_level_file_handler cfg suffix lvl s = (res, s')"
      and dbg: "lvl = DEBUG \<Longrightarrow> debug_mode cfg" and inv: "?I s"
    from dbg have "base \<le> levelno lvl" by (cases lvl) (simp_all add: base_def)
    with add_level_file_handler_ok [OF add _ this] inv True show "?I s'" by simp
  qed
  then show ?thesis by (simp add: base_def)
qed

text \<open>The console handler comes first in every logger that \<open>_create_logger\<close> leaves.\<close>

lemma create_logger_console:
  assumes "create_logger cfg s0 = (res, s1)"
  shows "\<exists>hs. handlers (tubalog s1) =
           \<lparr>dest = Stdout, hlevel = (if debug_mode cfg then 10 else 20), hfilter = None\<rparr> # hs"
proof (cases "log_path cfg \<noteq> [] \<and> multi_file cfg")
  case False
  with assms show ?thesis
    by (auto simp: create_logger_def addHandler_def Let_def split: if_splits)
next
  case True
  let ?console = "\<lparr>dest = Stdout, hlevel = (if debug_mode cfg then 10 else 20), hfilter = None\<rparr>"
  define s where "s = addHandler \<lparr>dest = Stdout,
                          hlevel = (if debug_mode cfg then levelno DEBUG else levelno INFO),
                          hfilter = None\<rparr>
       (s0\<lparr>tubalog := (tubalog s0)\<lparr>handlers := [], propagate := False,
             llevel := (if debug_mode cfg then levelno DEBUG else levelno INFO)\<rparr>\<rparr>)"
  have start: "\<exists>hs. handlers (tubalog s) = ?console # hs"
    by (simp add: s_def addHandler_def)
  from assms True have chain: "and_then (add_level_file_handler cfg ''_info.log'' INFO s) (\<lambda>s.
            and_then (add_level_file_handler cfg ''_warn.log'' WARNING s) (\<lambda>s.
            and_then (add_level_file_handler cfg ''_error.log'' ERROR s) (\<lambda>s.
            and_then (add_level_file_handler cfg ''_fatal.log'' CRITICAL s) (\<lambda>s.
              if debug_mode cfg then add_level_file_handler cfg ''_debug.log'' DEBUG s
              else (Inr (), s))))) = (res, s1)"
    by (simp add: create_logger_def Let_def s_def)
  show ?thesis
  proof (rule multi_chain_inv [where I = "\<lambda>s. \<exists>hs. handlers (tubalog s) = ?console # hs",
        OF chain _ start])
    fix suffix lvl s res s'
    assume "add_level_file_handler cfg suffix lvl s = (res, s')"
      and "\<exists>hs. handlers (tubalog s) = ?console # hs"
    then show "\<exists>hs. handlers (tubalog s') = ?console # hs"
      by (auto simp: add_level_file_handler_def addHandler_def Let_def split: if_splits)
  qed
qed

lemma default_logger_created:
  "tubalog (snd (create_logger default_config s)) = default_logger"
  by (simp add: create_logger_def default_config_def addHandler_def default_logger_def Let_def)

lemma created_console_line:
  assumes "tubalog s = tubalog (snd (create_logger cfg s0))"
  shows "(Stdout, JSONFormatter_format \<lparr>rec_level = CRITICAL, getMessage = m, exc_info = None\<rparr> s)
           \<in> set (lines_for CRITICAL m s)"
proof -
  obtain res s1 where c: "create_logger cfg s0 = (res, s1)" by (cases "create_logger cfg s0")
  with assms have same: "tubalog s = tubalog s1" by simp
  have lv: "llevel (tubalog s) = (if debug_mode cfg then 10 else 20)"
    using create_logger_sinks [OF c] unfolding same by blast
  obtain hs where hs: "handlers (tubalog s) =
      \<lparr>dest = Stdout, hlevel = (if debug_mode cfg then 10 else 20), hfilter = None\<rparr> # hs"
    using create_logger_console [OF c] unfolding same by blast
  from lv have "isEnabledFor (tubalog s) CRITICAL"
    by (simp add: isEnabledFor_def getEffectiveLevel_def)
  then show ?thesis
    by (simp add: lines_for_def hs)
qed

section \<open>Values of the examples\<close>

lemma digit_char_values:
  "digit_char 0 = CHR ''0''" "digit_char 1 = CHR ''1''" "digit_char 2 = CHR ''2''"
  "digit_char 3 = CHR ''3''" "digit_char 4 = CHR ''4''" "digit_char 5 = CHR ''5''"
  "digit_char 6 = CHR ''6''" "digit_char 7 = CHR ''7''" "digit_char 8 = CHR ''8''"
  "digit_char 9 = CHR ''9''" "digit_char (Suc 0) = CHR ''1''"
  unfolding digit_char_def by code_simp+

lemma lower_levelname:
  "lower ''DEBUG'' = ''debug''" "lower ''INFO'' = ''info''"
  "lower ''WARNING'' = ''warning''" "lower ''ERROR'' = ''error''"
  "lower ''CRITICAL'' = ''critical''"
  by code_simp+

lemma str_nat_clock: "str_nat 1700000000 = ''1700000000''"
  by (simp add: str_nat.simps digit_char_values)

lemma escape_plain:
  "32 \<le> (of_char c :: nat) \<Longrightarrow> c \<noteq> dquote \<Longrightarrow> c \<noteq> backslash \<Longrightarrow> escape_char c = [c]"
  by (auto simp: escape_char_def)

lemma simple_line:
  assumes "list_all (\<lambda>c. 32 \<le> (of_char c :: nat) \<and> c \<noteq> dquote \<and> c \<noteq> backslash) m"
  shows "py_encode_basestring m = dquote # m @ [dquote]"
proof -
  from assms have "concat (map escape_char m) = m"
    by (induction m) (simp_all add: escape_plain)
  then show ?thesis by (simp add: py_encode_basestring_def)
qed

lemma percent_example: "py_percent tail ''count=%d'' [PyInt 5] = Inr ''count=5''"
  by (simp add: prepend_def str_int_def str_nat.simps digit_char_values)

lemma init_multi:
  "init multi_cfg fresh = (Inr (), fresh\<lparr>tubalog := \<lparr>llevel = 20, handlers =
      [\<lparr>dest = Stdout, hlevel = 20, hfilter = None\<rparr>,
       \<lparr>dest = File ''/var/log/test_info.log'', hlevel = 20, hfilter = Some 20\<rparr>,
       \<lparr>dest = File ''/var/log/test_warn.log'', hlevel = 30, hfilter = Some 30\<rparr>,
       \<lparr>dest = File ''/var/log/test_error.log'', hlevel = 40, hfilter = Some 40\<rparr>,
       \<lparr>dest = File ''/var/log/test_fatal.log'', hlevel = 50, hfilter = Some 50\<rparr>], propagate = False\<rparr>,
      logger_set := True\<rparr>)"
  by (simp add: init_def create_logger_def multi_cfg_def fresh_def and_then_def
      add_level_file_handler_def addHandler_def os_path_join_def Let_def)

lemma init_info:
  "init info_cfg fresh = (Inr (), fresh\<lparr>tubalog := \<lparr>llevel = 20, handlers =
      [\<lparr>dest = Stdout, hlevel = 20, hfilter = None\<rparr>], propagate = False\<rparr>,
      logger_set := True\<rparr>)"
  by (simp add: init_def create_logger_def info_cfg_def fresh_def and_then_def
      addHandler_def Let_def)

section \<open>The claims\<close>

text \<open>
  Claim C1. Take the logger as \<open>_create_logger\<close> leaves it for any configuration, whether it
  returned or raised, and any call of a logging function whose message renders. The lines
  the call writes are the formatted record, once for each handler, in order, for which the
  record's level is at least the handler's level and the handler has no level filter or the
  filter's level is the record's; nothing is written unless the record's level is at least
  the logger's; the console handler has no filter, no handler has one in single-file mode,
  and every file handler of multi-file mode has the filter of its own level.
\<close>

theorem sink_routing:
  assumes made: "tubalog s = tubalog (snd (create_logger cfg s0))"
    and init: "logger_set s"
    and msg: "rendering s c = Inr m"
  shows "written (snd (run c s)) =
           written s @
           map (\<lambda>h. (dest h, JSONFormatter_format
                         \<lparr>rec_level = call_level c, getMessage = m, exc_info = None\<rparr> (scope c s)))
             (filter (\<lambda>h. hlevel h \<le> levelno (call_level c) \<and>
                          (hfilter h = None \<or> hfilter h = Some (levelno (call_level c))))
                (handlers (tubalog s)))
         \<and> (written (snd (run c s)) \<noteq> written s \<longrightarrow> llevel (tubalog s) \<le> levelno (call_level c))
         \<and> (\<forall>h \<in> set (handlers (tubalog s)).
               (dest h = Stdout \<longrightarrow> hfilter h = None)
               \<and> (\<not> multi_file cfg \<longrightarrow> hfilter h = None)
               \<and> (multi_file cfg \<and> dest h \<noteq> Stdout \<longrightarrow> hfilter h = Some (hlevel h)))"
proof -
  obtain res s1 where c: "create_logger cfg s0 = (res, s1)" by (cases "create_logger cfg s0")
  from made c have same: "tubalog s = tubalog s1" by simp
  have lv: "llevel (tubalog s) = (if debug_mode cfg then 10 else 20)"
    and ok: "list_all (sink_ok cfg (llevel (tubalog s))) (handlers (tubalog s))"
    using create_logger_sinks [OF c] unfolding same by blast+
  from lv have eff: "getEffectiveLevel (tubalog s) = llevel (tubalog s)"
    by (simp add: getEffectiveLevel_def)
  let ?P = "\<lambda>h. hlevel h \<le> levelno (call_level c) \<and>
                 (hfilter h = None \<or> hfilter h = Some (levelno (call_level c)))"
  have none: "filter ?P (handlers (tubalog s)) = []" if "\<not> isEnabledFor (tubalog s) (call_level c)"
    using that ok by (auto simp: filter_empty_conv list_all_iff sink_ok_def isEnabledFor_def eff)
  have w: "written (snd (run c s)) = written s @ lines_for (call_level c) m (scope c s)"
    using init msg by (simp add: run_eq)
  have first: "written (snd (run c s)) =
           written s @
           map (\<lambda>h. (dest h, JSONFormatter_format
                         \<lparr>rec_level = call_level c, getMessage = m, exc_info = None\<rparr> (scope c s)))
             (filter ?P (handlers (tubalog s)))"
    using none by (simp add: w lines_for_def)
  have second: "written (snd (run c s)) \<noteq> written s \<longrightarrow> llevel (tubalog s) \<le> levelno (call_level c)"
    by (auto simp: w lines_for_def isEnabledFor_def eff split: if_splits)
  have third: "\<forall>h \<in> set (handlers (tubalog s)).
               (dest h = Stdout \<longrightarrow> hfilter h = None)
               \<and> (\<not> multi_file cfg \<longrightarrow> hfilter h = None)
               \<and> (multi_file cfg \<and> dest h \<noteq> Stdout \<longrightarrow> hfilter h = Some (hlevel h))"
    using ok by (auto simp: list_all_iff sink_ok_def split: if_splits)
  from first second third show ?thesis by blast
qed

theorem sink_routing_witness:
  \<open>tubalog (snd (init multi_cfg fresh)) = tubalog (snd (create_logger multi_cfg fresh))
   \<and> logger_set (snd (init multi_cfg fresh))
   \<and> rendering (snd (init multi_cfg fresh)) (Error [PyStr ''boom'']) = Inr ''boom''
   \<and> written (snd (run (Error [PyStr ''boom'']) (snd (init multi_cfg fresh)))) =
       [(Stdout, ''{"level":"error","event_time":"1700000000","msg":"boom"}''),
        (File ''/var/log/test_error.log'',
         ''{"level":"error","event_time":"1700000000","msg":"boom"}'')]\<close>
proof -
  let ?s = "snd (init multi_cfg fresh)"
  have h1: "tubalog ?s = tubalog (snd (create_logger multi_cfg fresh))"
    by (simp add: init_def and_then_def split: prod.splits sum.splits)
  have h2: "logger_set ?s" by (simp add: init_multi)
  have h3: "rendering (snd (init multi_cfg fresh)) (Error [PyStr ''boom'']) = Inr ''boom''"
    by (simp add: join_args_def)
  have line: \<open>JSONFormatter_format
          \<lparr>rec_level = ERROR, getMessage = ''boom'', exc_info = None\<rparr> ?s
        = ''{"level":"error","event_time":"1700000000","msg":"boom"}''\<close>
    unfolding init_multi
    by (simp add: fresh_def format_fields fields_of_def lower_levelname str_nat_clock
        json_dumps_def encode_item_def py_encode_basestring_def escape_plain dquote_def
        backslash_def)
  from sink_routing [OF h1 h2 h3] have
    "written (snd (run (Error [PyStr ''boom'']) ?s)) =
       written ?s @
       map (\<lambda>h. (dest h, JSONFormatter_format
                     \<lparr>rec_level = ERROR, getMessage = ''boom'', exc_info = None\<rparr>
                     (scope (Error [PyStr ''boom'']) ?s)))
         (filter (\<lambda>h. hlevel h \<le> levelno ERROR \<and>
                      (hfilter h = None \<or> hfilter h = Some (levelno ERROR)))
            (handlers (tubalog ?s)))"
    by simp
  also have "scope (Error [PyStr ''boom'']) ?s = ?s" by (simp add: scope_def)
  finally have "written (snd (run (Error [PyStr ''boom'']) ?s)) =
       written ?s @
       map (\<lambda>h. (dest h, JSONFormatter_format
                     \<lparr>rec_level = ERROR, getMessage = ''boom'', exc_info = None\<rparr> ?s))
         (filter (\<lambda>h. hlevel h \<le> levelno ERROR \<and>
                      (hfilter h = None \<or> hfilter h = Some (levelno ERROR)))
            (handlers (tubalog ?s)))" .
  then have \<open>written (snd (run (Error [PyStr ''boom'']) ?s)) =
       [(Stdout, ''{"level":"error","event_time":"1700000000","msg":"boom"}''),
        (File ''/var/log/test_error.log'',
         ''{"level":"error","event_time":"1700000000","msg":"boom"}'')]\<close>
    unfolding line unfolding init_multi by (simp add: fresh_def)
  with h1 h2 h3 show ?thesis by blast
qed

text \<open>
  Claim C2. Every line of the formatter is a JSON object on one line: it reads back as an
  object whose keys are exactly \<open>level\<close>, \<open>event_time\<close> and \<open>msg\<close>, followed by \<open>trace_id\<close>
  if and only if the context has a trace id, followed by \<open>stacktrace\<close> if and only if the
  record is at WARNING or above and carries exception information; \<open>event_time\<close> is a
  non-empty string of decimal digits, the clock's whole seconds; the values read back are
  the record's; the line holds no control character, so neither a line feed nor a carriage
  return; and the characters beyond ASCII of the line are those of the message, the trace id
  and the stack trace, in this order, none of them escaped.
\<close>

theorem format_is_json_line:
  "\<exists>entry.
     json_loads (JSONFormatter_format r s) = Some entry
     \<and> map fst entry =
         [''level'', ''event_time'', ''msg'']
         @ (if trace_id_var s \<noteq> None then [''trace_id''] else [])
         @ (if levelno (rec_level r) \<ge> levelno WARNING \<and> exc_info r \<noteq> None
            then [''stacktrace''] else [])
     \<and> map_of entry ''level'' = Some (lower (levelname (rec_level r)))
     \<and> map_of entry ''event_time'' = Some (str_nat (clock s))
     \<and> list_all is_digit (str_nat (clock s)) \<and> str_nat (clock s) \<noteq> []
     \<and> map_of entry ''msg'' = Some (getMessage r)
     \<and> map_of entry ''trace_id'' = trace_id_var s
     \<and> map_of entry ''stacktrace'' =
         (if levelno (rec_level r) \<ge> levelno WARNING then exc_info r else None)
     \<and> list_all printable (JSONFormatter_format r s)
     \<and> CHR 0x0A \<notin> set (JSONFormatter_format r s)
     \<and> CHR 0x0D \<notin> set (JSONFormatter_format r s)
     \<and> filter non_ascii (JSONFormatter_format r s) =
         filter non_ascii
           (getMessage r
            @ (case trace_id_var s of None \<Rightarrow> [] | Some t \<Rightarrow> t)
            @ (case exc_info r of None \<Rightarrow> []
               | Some tb \<Rightarrow> if levelno (rec_level r) \<ge> levelno WARNING then tb else []))"
proof -
  let ?line = "JSONFormatter_format r s"
  let ?entry = "fields_of r s"
  have line: "?line = json_dumps ?entry" by (rule format_fields)
  have loads: "json_loads ?line = Some ?entry" by (simp only: line json_loads_dumps)
  have keys: "map fst ?entry =
         [''level'', ''event_time'', ''msg'']
         @ (if trace_id_var s \<noteq> None then [''trace_id''] else [])
         @ (if levelno (rec_level r) \<ge> levelno WARNING \<and> exc_info r \<noteq> None
            then [''stacktrace''] else [])"
    by (simp add: fields_of_def split: option.splits)
  have lv: "map_of ?entry ''level'' = Some (lower (levelname (rec_level r)))"
    by (simp add: fields_of_def)
  have et: "map_of ?entry ''event_time'' = Some (str_nat (clock s))"
    by (simp add: fields_of_def)
  have mg: "map_of ?entry ''msg'' = Some (getMessage r)"
    by (simp add: fields_of_def)
  have tr: "map_of ?entry ''trace_id'' = trace_id_var s"
    by (simp add: fields_of_def split: option.splits)
  have st: "map_of ?entry ''stacktrace'' =
         (if levelno (rec_level r) \<ge> levelno WARNING then exc_info r else None)"
    by (simp add: fields_of_def split: option.splits)
  have pr: "list_all printable ?line" by (simp only: line json_dumps_printable)
  have nl: "CHR 0x0A \<notin> set ?line \<and> CHR 0x0D \<notin> set ?line"
    using pr by (rule printable_no_newline)
  have na: "filter non_ascii ?line =
         filter non_ascii
           (getMessage r
            @ (case trace_id_var s of None \<Rightarrow> [] | Some t \<Rightarrow> t)
            @ (case exc_info r of None \<Rightarrow> []
               | Some tb \<Rightarrow> if levelno (rec_level r) \<ge> levelno WARNING then tb else []))"
    by (simp add: line json_dumps_non_ascii fields_of_def levelname_lower_ascii str_nat_ascii
        non_ascii_def split: option.splits)
  show ?thesis
    using loads keys lv et mg tr st pr nl na str_nat_digits [of "clock s"] by blast
qed

text \<open>
  Claim C3, evaluated on the code. With the configuration of the module's tests,
  \<open>warn("hello")\<close> writes a record whose level is \<open>warning\<close> and \<open>fatal("hello")\<close> one whose
  level is \<open>critical\<close>: the formatter lower-cases the level names of the logging library,
  which are WARNING and CRITICAL, not the names \<open>warn\<close> and \<open>fatal\<close> of the functions and of
  the per-level files.
\<close>

theorem warn_fatal_level_names:
  \<open>written (snd (warn [PyStr ''hello''] (snd (init info_cfg fresh)))) =
     [(Stdout, ''{"level":"warning","event_time":"1700000000","msg":"hello"}'')]
   \<and> written (snd (fatal [PyStr ''hello''] (snd (init info_cfg fresh)))) =
     [(Stdout, ''{"level":"critical","event_time":"1700000000","msg":"hello"}'')]\<close>
  unfolding init_info
  by (simp add: warn_def fatal_def get_logger_eq and_then_def join_args_def Logger_methods
      lines_for_def isEnabledFor_def getEffectiveLevel_def fresh_def format_fields fields_of_def
      lower_levelname str_nat_clock json_dumps_def encode_item_def py_encode_basestring_def
      escape_plain dquote_def backslash_def)

text \<open>
  Claim C4. Setting a trace id and resetting with the token gives back the state, so
  \<open>from_context\<close> reports what it reported before, and not the id of the scope unless that
  was the value before; in between it reports the id. A \<open>ctx_*\<close> call is its one logging
  call made with the trace id installed, followed by the restoring of the previous value,
  whatever the logging call returned or raised; each line it writes carries the trace id.
\<close>

theorem trace_scoping:
  "reset_trace_id (fst (with_trace_id x s)) (snd (with_trace_id x s)) = s
   \<and> from_context (snd (with_trace_id x s)) = (Some x, True)
   \<and> from_context (reset_trace_id (fst (with_trace_id x s)) (snd (with_trace_id x s)))
       = from_context s
   \<and> (trace_id_var s \<noteq> Some x \<longrightarrow>
        fst (from_context (reset_trace_id (fst (with_trace_id x s)) (snd (with_trace_id x s))))
          \<noteq> Some x)
   \<and> (call_trace_id c = Some tid \<longrightarrow>
        run c s =
          (fst (run (inner_call c) (s\<lparr>trace_id_var := Some tid\<rparr>)),
           (snd (run (inner_call c) (s\<lparr>trace_id_var := Some tid\<rparr>)))
             \<lparr>trace_id_var := trace_id_var s\<rparr>)
        \<and> from_context (snd (run c s)) = from_context s
        \<and> list_all (\<lambda>dl. field ''trace_id'' (snd dl) = Some tid) (new_lines s (snd (run c s))))"
proof -
  have restored: "reset_trace_id (fst (with_trace_id x s)) (snd (with_trace_id x s)) = s"
    by (simp add: reset_trace_id_def with_trace_id_def)
  have inside: "from_context (snd (with_trace_id x s)) = (Some x, True)"
    by (simp add: from_context_def with_trace_id_def)
  have afterwards: "from_context (snd (run c s)) = from_context s"
    using run_frame [of c s] by (simp add: from_context_def)
  show ?thesis
    using ctx_run [of c tid s] ctx_lines [of c tid s] afterwards inside
    by (simp add: restored from_context_def)
qed

theorem trace_scoping_witness:
  "trace_id_var (fresh\<lparr>trace_id_var := Some ''outer''\<rparr>) \<noteq> Some ''abc-123''
   \<and> call_trace_id (CtxInfof ''abc-123'' ''%d'' [PyStr ''x'']) = Some ''abc-123''
   \<and> from_context (reset_trace_id
         (fst (with_trace_id ''abc-123'' (fresh\<lparr>trace_id_var := Some ''outer''\<rparr>)))
         (snd (with_trace_id ''abc-123'' (fresh\<lparr>trace_id_var := Some ''outer''\<rparr>))))
       = (Some ''outer'', True)
   \<and> fst (ctx_infof ''abc-123'' ''%d'' [PyStr ''x''] (fresh\<lparr>trace_id_var := Some ''outer''\<rparr>))
       = Inl TypeError
   \<and> from_context (snd (ctx_infof ''abc-123'' ''%d'' [PyStr ''x'']
         (fresh\<lparr>trace_id_var := Some ''outer''\<rparr>))) = (Some ''outer'', True)"
proof -
  let ?s = "fresh\<lparr>trace_id_var := Some ''outer''\<rparr>"
  let ?c = "CtxInfof ''abc-123'' ''%d'' [PyStr ''x'']"
  have h1: "trace_id_var ?s \<noteq> Some ''abc-123''" by simp
  have h2: "call_trace_id ?c = Some ''abc-123''" by simp
  have ctx: "from_context ?s = (Some ''outer'', True)" by (simp add: from_context_def)
  have raised: "fst (run (inner_call ?c) (?s\<lparr>trace_id_var := Some ''abc-123''\<rparr>)) = Inl TypeError"
    by (simp add: infof_def get_logger_eq and_then_def)
  from trace_scoping [of "''abc-123''" ?s ?c "''abc-123''"] h1 h2
  have a: "from_context (reset_trace_id (fst (with_trace_id ''abc-123'' ?s))
              (snd (with_trace_id ''abc-123'' ?s))) = from_context ?s"
    and b: "run ?c ?s =
          (fst (run (inner_call ?c) (?s\<lparr>trace_id_var := Some ''abc-123''\<rparr>)),
           (snd (run (inner_call ?c) (?s\<lparr>trace_id_var := Some ''abc-123''\<rparr>)))
             \<lparr>trace_id_var := trace_id_var ?s\<rparr>)"
    and c: "from_context (snd (run ?c ?s)) = from_context ?s"
    by blast+
  from b raised have "fst (run ?c ?s) = Inl TypeError" by simp
  with a c ctx h1 h2 show ?thesis by simp
qed

text \<open>
  Claim C5 fails as it is stated: \<open>infof("%d", "abc")\<close> raises the TypeError of the
  interpolation to its caller.
\<close>

theorem infof_mismatch_raises:
  "fst (infof ''%d'' [PyStr ''abc''] fresh) = Inl TypeError"
  by (simp add: infof_def get_logger_eq and_then_def)

text \<open>
  Claim C5, amended. A logging call raises exactly what the rendering of its message
  raises: \<open>str\<close> of an argument in the plain variants, \<open>template % args\<close> in the formatted
  variants called with at least one extra argument, for every template and whatever the
  interpreter makes of the conversions handed to \<open>percent_tail\<close>. When the message
  renders, \<open>debug\<close>, \<open>info\<close>, \<open>warn\<close>, \<open>error\<close>, their formatted and their \<open>ctx_*\<close> variants
  return, and \<open>fatal\<close> and \<open>fatalf\<close> raise \<open>SystemExit(1)\<close>; the implicit initialisation,
  the comparison of levels and the handlers raise nothing. A formatted variant without
  extra arguments and a plain variant with string arguments always render.
\<close>

theorem raises_what_rendering_raises:
  "fst (run c s) =
     (case rendering s c of
        Inl e \<Rightarrow> Inl e
      | Inr m \<Rightarrow> if call_level c = CRITICAL then Inl (SystemExit 1) else Inr ())
   \<and> fst (debugf t [] s) = Inr () \<and> fst (infof t [] s) = Inr ()
   \<and> fst (warnf t [] s) = Inr () \<and> fst (errorf t [] s) = Inr ()
   \<and> fst (debug (map PyStr xs) s) = Inr () \<and> fst (info (map PyStr xs) s) = Inr ()
   \<and> fst (warn (map PyStr xs) s) = Inr () \<and> fst (error (map PyStr xs) s) = Inr ()"
proof -
  have general: "fst (run c s) =
     (case rendering s c of
        Inl e \<Rightarrow> Inl e
      | Inr m \<Rightarrow> if call_level c = CRITICAL then Inl (SystemExit 1) else Inr ())" for c
    by (simp add: run_fst exit_of_def split: sum.splits)
  have f: "fst (debugf t [] s) = Inr ()" "fst (infof t [] s) = Inr ()"
    "fst (warnf t [] s) = Inr ()" "fst (errorf t [] s) = Inr ()"
    using general [of "Debugf t []"] general [of "Infof t []"] general [of "Warnf t []"]
      general [of "Errorf t []"]
    by (simp_all add: interpolate_def)
  have p: "fst (debug (map PyStr xs) s) = Inr ()" "fst (info (map PyStr xs) s) = Inr ()"
    "fst (warn (map PyStr xs) s) = Inr ()" "fst (error (map PyStr xs) s) = Inr ()"
    using general [of "Debug (map PyStr xs)"] general [of "Info (map PyStr xs)"]
      general [of "Warn (map PyStr xs)"] general [of "Error (map PyStr xs)"]
    by (simp_all add: join_args_strings)
  from general [of c] f p show ?thesis by simp
qed

text \<open>
  Claim C6 fails as it is stated: with the logger at INFO, \<open>debugf("%d", "abc")\<close> is below
  the threshold and still interpolates, which the caller sees as a TypeError.
\<close>

theorem debugf_below_threshold_raises:
  "levelno DEBUG < getEffectiveLevel (tubalog (snd (init info_cfg fresh)))
   \<and> fst (debugf ''%d'' [PyStr ''abc''] (snd (init info_cfg fresh))) = Inl TypeError"
  unfolding init_info
  by (simp add: debugf_def get_logger_eq and_then_def getEffectiveLevel_def)

text \<open>
  Claim C6, amended. A call whose level is below the threshold of the initialised logger
  leaves the state as it was: no line on any destination, the formatter not run, logger
  and trace id untouched. Its message is rendered all the same, before the levels are
  compared, and an exception of the rendering reaches the caller.
\<close>

theorem below_threshold_no_output:
  assumes "logger_set s" and "levelno (call_level c) < getEffectiveLevel (tubalog s)"
  shows "snd (run c s) = s
         \<and> fst (run c s) =
             (case rendering s c of
                Inl e \<Rightarrow> Inl e
              | Inr m \<Rightarrow> if call_level c = CRITICAL then Inl (SystemExit 1) else Inr ())"
proof -
  have "lines_for (call_level c) m (scope c s) = []" for m
    using assms(2) by (intro below_threshold_lines) simp
  with assms(1) have "snd (run c s) = s"
    by (simp add: run_eq split: sum.splits)
  then show ?thesis by (simp add: run_fst exit_of_def split: sum.splits)
qed

theorem below_threshold_no_output_witness:
  "logger_set (snd (init info_cfg fresh))
   \<and> levelno (call_level (Debug [PyStr ''x''])) < getEffectiveLevel (tubalog (snd (init info_cfg fresh)))
   \<and> debug [PyStr ''x''] (snd (init info_cfg fresh)) = (Inr (), snd (init info_cfg fresh))"
proof -
  let ?s = "snd (init info_cfg fresh)"
  have h1: "logger_set ?s" by (simp add: init_info)
  have h2: "levelno (call_level (Debug [PyStr ''x''])) < getEffectiveLevel (tubalog ?s)"
    by (simp add: init_info getEffectiveLevel_def)
  have "rendering ?s (Debug [PyStr ''x'']) = Inr ''x''" by (simp add: join_args_def)
  with below_threshold_no_output [OF h1 h2]
  have "snd (run (Debug [PyStr ''x'']) ?s) = ?s" "fst (run (Debug [PyStr ''x'']) ?s) = Inr ()"
    by simp_all
  then have "debug [PyStr ''x''] ?s = (Inr (), ?s)"
    by (simp add: prod_eq_iff)
  with h1 h2 show ?thesis by blast
qed

text \<open>
  Claim C7. For \<open>debugf\<close>, \<open>infof\<close>, \<open>warnf\<close>, \<open>errorf\<close> and \<open>fatalf\<close>: called without extra
  arguments, the record they log has the template itself as its message, whatever
  characters it holds; called with extra arguments, the message is \<open>template % args\<close>,
  for every template, and when that raises, nothing is written and the exception reaches
  the caller. In both cases the lines written are those of a record of the function's
  level with that message, and the \<open>msg\<close> member of each is the message. On a template of
  text, \<open>%s\<close>, \<open>%d\<close> and \<open>%%\<close> the interpolation is the substitution of the arguments for
  the placeholders in their order. \<open>"count=%d" % (5,)\<close> is \<open>"count=5"\<close>.
\<close>

theorem formatted_message:
  assumes "c \<in> {Debugf t args, Infof t args, Warnf t args, Errorf t args, Fatalf t args}"
  shows "(args = [] \<longrightarrow>
           new_lines s (snd (run c s)) = lines_for (call_level c) t (initialised s)
           \<and> list_all (\<lambda>dl. field ''msg'' (snd dl) = Some t) (new_lines s (snd (run c s))))
         \<and> (\<forall>m. args \<noteq> [] \<and> py_percent (percent_tail s) t args = Inr m \<longrightarrow>
               new_lines s (snd (run c s)) = lines_for (call_level c) m (initialised s)
               \<and> list_all (\<lambda>dl. field ''msg'' (snd dl) = Some m) (new_lines s (snd (run c s))))
         \<and> (\<forall>e. args \<noteq> [] \<and> py_percent (percent_tail s) t args = Inl e \<longrightarrow>
               new_lines s (snd (run c s)) = [] \<and> fst (run c s) = Inl e)
         \<and> (list_all plain_text ps \<and> t = template_of ps \<longrightarrow>
               py_percent (percent_tail s) t args = substitute ps args)
         \<and> py_percent (percent_tail s) ''count=%d'' [PyInt 5] = Inr ''count=5''"
proof -
  from assms have r: "rendering s c = interpolate s t args" and n: "call_trace_id c = None"
    by auto
  have verbatim: "new_lines s (snd (run c s)) = lines_for (call_level c) t (initialised s)"
    if "args = []"
    using that by (simp add: run_new_lines r n interpolate_def)
  have interpolated: "new_lines s (snd (run c s)) = lines_for (call_level c) m (initialised s)"
    if "args \<noteq> []" "py_percent (percent_tail s) t args = Inr m" for m
    using that by (simp add: run_new_lines r n interpolate_def)
  have failed: "new_lines s (snd (run c s)) = [] \<and> fst (run c s) = Inl e"
    if "args \<noteq> []" "py_percent (percent_tail s) t args = Inl e" for e
    using that by (simp add: run_new_lines run_fst r interpolate_def)
  have positional: "py_percent (percent_tail s) t args = substitute ps args"
    if "list_all plain_text ps" "t = template_of ps"
    using that by (simp add: py_percent_pieces)
  show ?thesis
    using verbatim interpolated failed positional lines_for_msg percent_example by simp
qed

theorem formatted_message_witness:
  \<open>Infof ''user=%s count=%d'' [PyStr ''ann'', PyInt 5]
     \<in> {Debugf ''user=%s count=%d'' [PyStr ''ann'', PyInt 5],
        Infof ''user=%s count=%d'' [PyStr ''ann'', PyInt 5],
        Warnf ''user=%s count=%d'' [PyStr ''ann'', PyInt 5],
        Errorf ''user=%s count=%d'' [PyStr ''ann'', PyInt 5],
        Fatalf ''user=%s count=%d'' [PyStr ''ann'', PyInt 5]}
   \<and> Infof ''100% sure'' [] \<in> {Debugf ''100% sure'' [], Infof ''100% sure'' [],
       Warnf ''100% sure'' [], Errorf ''100% sure'' [], Fatalf ''100% sure'' []}
   \<and> list_all plain_text [Text ''user='', Str_conv, Text '' count='', Int_conv]
   \<and> ''user=%s count=%d'' = template_of [Text ''user='', Str_conv, Text '' count='', Int_conv]
   \<and> [PyStr ''ann'', PyInt 5] \<noteq> []
   \<and> py_percent (percent_tail (snd (init info_cfg fresh))) ''user=%s count=%d''
         [PyStr ''ann'', PyInt 5] = Inr ''user=ann count=5''
   \<and> new_lines (snd (init info_cfg fresh))
        (snd (infof ''user=%s count=%d'' [PyStr ''ann'', PyInt 5] (snd (init info_cfg fresh)))) =
       [(Stdout, ''{"level":"info","event_time":"1700000000","msg":"user=ann count=5"}'')]
   \<and> field ''msg'' ''{"level":"info","event_time":"1700000000","msg":"user=ann count=5"}''
       = Some ''user=ann count=5''
   \<and> new_lines (snd (init info_cfg fresh))
        (snd (infof ''100% sure'' [] (snd (init info_cfg fresh)))) =
       [(Stdout, ''{"level":"info","event_time":"1700000000","msg":"100% sure"}'')]
   \<and> field ''msg'' ''{"level":"info","event_time":"1700000000","msg":"100% sure"}''
       = Some ''100% sure''\<close>
proof -
  let ?s = "snd (init info_cfg fresh)"
  let ?t = "''user=%s count=%d''"
  let ?a = "[PyStr ''ann'', PyInt 5]"
  let ?ps = "[Text ''user='', Str_conv, Text '' count='', Int_conv]"
  let ?c = "Infof ?t ?a"
  let ?d = "Infof ''100% sure'' []"
  have hc: "?c \<in> {Debugf ?t ?a, Infof ?t ?a, Warnf ?t ?a, Errorf ?t ?a, Fatalf ?t ?a}"
    by simp
  have hd: "?d \<in> {Debugf ''100% sure'' [], Infof ''100% sure'' [],
       Warnf ''100% sure'' [], Errorf ''100% sure'' [], Fatalf ''100% sure'' []}"
    by simp
  have plain: "list_all plain_text ?ps" by simp
  have tmpl: "?t = template_of ?ps" by (simp add: template_of_def)
  have some: "?a \<noteq> []" by simp
  have filled: "substitute ?ps ?a = Inr ''user=ann count=5''"
    by (simp add: prepend_def str_int_def str_nat.simps digit_char_values)
  have init: "initialised ?s = ?s" by (simp add: init_info)
  have lines: \<open>lines_for INFO m ?s =
      [(Stdout, ''{"level":"info","event_time":"1700000000","msg":'' @ py_encode_basestring m @ ''}'')]\<close>
    for m
    unfolding init_info
    by (simp add: lines_for_def isEnabledFor_def getEffectiveLevel_def fresh_def format_fields
        fields_of_def lower_levelname str_nat_clock json_dumps_def encode_item_def
        simple_line dquote_def backslash_def)
  have e1: \<open>py_encode_basestring ''user=ann count=5'' = ''"user=ann count=5"''\<close>
    by (simp add: simple_line dquote_def backslash_def)
  have e2: \<open>py_encode_basestring ''100% sure'' = ''"100% sure"''\<close>
    by (simp add: simple_line dquote_def backslash_def)
  note thm_c = formatted_message [OF hc, of ?s ?ps]
  from thm_c plain tmpl
  have "py_percent (percent_tail ?s) ?t ?a = substitute ?ps ?a" by blast
  with filled have p: "py_percent (percent_tail ?s) ?t ?a = Inr ''user=ann count=5''"
    by (simp only:)
  from thm_c
  have "?a \<noteq> [] \<and> py_percent (percent_tail ?s) ?t ?a = Inr ''user=ann count=5'' \<longrightarrow>
          new_lines ?s (snd (run ?c ?s))
            = lines_for (call_level ?c) ''user=ann count=5'' (initialised ?s)
          \<and> list_all (\<lambda>dl. field ''msg'' (snd dl) = Some ''user=ann count=5'')
                (new_lines ?s (snd (run ?c ?s)))"
    by blast
  with some p
  have "new_lines ?s (snd (run ?c ?s))
          = lines_for (call_level ?c) ''user=ann count=5'' (initialised ?s)"
    and c2: "list_all (\<lambda>dl. field ''msg'' (snd dl) = Some ''user=ann count=5'')
                (new_lines ?s (snd (run ?c ?s)))"
    by blast+
  then have c1: "new_lines ?s (snd (run ?c ?s)) = lines_for INFO ''user=ann count=5'' ?s"
    unfolding init by simp
  from formatted_message [OF hd, of ?s]
  have "new_lines ?s (snd (run ?d ?s)) = lines_for (call_level ?d) ''100% sure'' (initialised ?s)"
    and d2: "list_all (\<lambda>dl. field ''msg'' (snd dl) = Some ''100% sure'')
                (new_lines ?s (snd (run ?d ?s)))"
    by blast+
  then have d1: "new_lines ?s (snd (run ?d ?s)) = lines_for INFO ''100% sure'' ?s"
    unfolding init by simp
  from c1 c2 d1 d2 have out:
    \<open>new_lines ?s (snd (infof ?t ?a ?s)) =
       [(Stdout, ''{"level":"info","event_time":"1700000000","msg":"user=ann count=5"}'')]
     \<and> field ''msg'' ''{"level":"info","event_time":"1700000000","msg":"user=ann count=5"}''
         = Some ''user=ann count=5''
     \<and> new_lines ?s (snd (infof ''100% sure'' [] ?s)) =
       [(Stdout, ''{"level":"info","event_time":"1700000000","msg":"100% sure"}'')]
     \<and> field ''msg'' ''{"level":"info","event_time":"1700000000","msg":"100% sure"}''
         = Some ''100% sure''\<close>
    by (simp add: lines e1 e2)
  from hc hd plain tmpl some p out show ?thesis by blast
qed

text \<open>
  Claim C8. In a state where no logger has been set, \<open>_get_logger\<close> returns without an
  exception, whatever the file system, and leaves the logger at DEBUG with the console
  handler at DEBUG as its only handler. So does the first logging call, whose outcome is
  that of its message; after it \<open>_get_logger\<close> changes nothing, and a further call keeps the
  same logger.
\<close>

theorem implicit_initialisation:
  assumes "\<not> logger_set s"
  shows "get_logger s =
           (Inr (), s\<lparr>tubalog := \<lparr>llevel = levelno DEBUG,
                                  handlers = [\<lparr>dest = Stdout, hlevel = levelno DEBUG,
                                               hfilter = None\<rparr>],
                                  propagate = False\<rparr>,
                      logger_set := True\<rparr>)
         \<and> tubalog (snd (run c s)) =
             \<lparr>llevel = levelno DEBUG,
              handlers = [\<lparr>dest = Stdout, hlevel = levelno DEBUG, hfilter = None\<rparr>],
              propagate = False\<rparr>
         \<and> logger_set (snd (run c s))
         \<and> fst (run c s) =
             (case rendering s c of
                Inl e \<Rightarrow> Inl e
              | Inr m \<Rightarrow> if call_level c = CRITICAL then Inl (SystemExit 1) else Inr ())
         \<and> get_logger (snd (run c s)) = (Inr (), snd (run c s))
         \<and> tubalog (snd (run c' (snd (run c s)))) = tubalog (snd (run c s))"
proof -
  have a: "get_logger s =
           (Inr (), s\<lparr>tubalog := \<lparr>llevel = levelno DEBUG,
                                  handlers = [\<lparr>dest = Stdout, hlevel = levelno DEBUG,
                                               hfilter = None\<rparr>],
                                  propagate = False\<rparr>,
                      logger_set := True\<rparr>)"
    using assms by (simp add: get_logger_eq default_logger_def)
  have b: "tubalog (snd (run c s)) =
             \<lparr>llevel = levelno DEBUG,
              handlers = [\<lparr>dest = Stdout, hlevel = levelno DEBUG, hfilter = None\<rparr>],
              propagate = False\<rparr>"
    using assms run_frame [of c s] by (simp add: initialised_def default_logger_def)
  have set: "logger_set (snd (run c s))" using run_frame [of c s] by simp
  have d: "fst (run c s) =
             (case rendering s c of
                Inl e \<Rightarrow> Inl e
              | Inr m \<Rightarrow> if call_level c = CRITICAL then Inl (SystemExit 1) else Inr ())"
    by (simp add: run_fst exit_of_def split: sum.splits)
  have e: "get_logger (snd (run c s)) = (Inr (), snd (run c s))"
    using set by (simp add: get_logger_eq)
  have f: "tubalog (snd (run c' (snd (run c s)))) = tubalog (snd (run c s))"
    using set run_frame [of c' "snd (run c s)"] by simp
  from a b set d e f show ?thesis by blast
qed

theorem implicit_initialisation_witness:
  \<open>\<not> logger_set fresh
   \<and> info [PyStr ''hello''] fresh =
       (Inr (),
        fresh\<lparr>tubalog := \<lparr>llevel = 10, handlers = [\<lparr>dest = Stdout, hlevel = 10, hfilter = None\<rparr>],
                           propagate = False\<rparr>,
              logger_set := True,
              written := [(Stdout, ''{"level":"info","event_time":"1700000000","msg":"hello"}'')]\<rparr>)
   \<and> tubalog (snd (run (Debug [PyStr ''again'']) (snd (run (Info [PyStr ''hello'']) fresh))))
       = \<lparr>llevel = 10, handlers = [\<lparr>dest = Stdout, hlevel = 10, hfilter = None\<rparr>],
          propagate = False\<rparr>\<close>
proof -
  have h: "\<not> logger_set fresh" by (simp add: fresh_def)
  have ev: \<open>info [PyStr ''hello''] fresh =
       (Inr (),
        fresh\<lparr>tubalog := \<lparr>llevel = 10, handlers = [\<lparr>dest = Stdout, hlevel = 10, hfilter = None\<rparr>],
                           propagate = False\<rparr>,
              logger_set := True,
              written := [(Stdout, ''{"level":"info","event_time":"1700000000","msg":"hello"}'')]\<rparr>)\<close>
    by (simp add: info_def get_logger_eq and_then_def join_args_def Logger_methods
      lines_for_def isEnabledFor_def getEffectiveLevel_def fresh_def format_fields fields_of_def
      lower_levelname str_nat_clock json_dumps_def encode_item_def py_encode_basestring_def
      escape_plain dquote_def backslash_def default_logger_def)
  from implicit_initialisation [OF h, of "Info [PyStr ''hello'']" "Debug [PyStr ''again'']"]
  have "tubalog (snd (run (Debug [PyStr ''again'']) (snd (run (Info [PyStr ''hello'']) fresh))))
       = \<lparr>llevel = 10, handlers = [\<lparr>dest = Stdout, hlevel = 10, hfilter = None\<rparr>],
          propagate = False\<rparr>"
    by simp
  with h ev show ?thesis by blast
qed

text \<open>
  Claim C9 fails as it is stated: \<open>fatalf("%d", "abc")\<close> raises the TypeError of the
  interpolation; it writes no record and does not reach \<open>sys.exit(1)\<close>.
\<close>

theorem fatalf_mismatch_no_record_no_exit:
  "fatalf ''%d'' [PyStr ''abc''] (snd (init info_cfg fresh))
     = (Inl TypeError, snd (init info_cfg fresh))"
  unfolding init_info
  by (simp add: fatalf_def get_logger_eq and_then_def)

text \<open>
  Claim C9, amended. Whenever the message of \<open>fatal\<close> or \<open>fatalf\<close> renders, as it does for
  string arguments and for a template without extra arguments, the call ends with
  \<open>SystemExit(1)\<close> and the state it leaves holds the record's lines after the earlier ones:
  the lines of a CRITICAL record with that message, among them the line on the console,
  for the logger of any configuration and for the implicitly initialised one.
\<close>

theorem fatal_emits_then_exits:
  assumes "c = Fatal args \<or> c = Fatalf t args"
    and "rendering s c = Inr m"
    and "logger_set s \<longrightarrow> tubalog s = tubalog (snd (create_logger cfg s0))"
  shows "fst (run c s) = Inl (SystemExit 1)
         \<and> written (snd (run c s)) = written s @ lines_for CRITICAL m (initialised s)
         \<and> (Stdout, JSONFormatter_format
                       \<lparr>rec_level = CRITICAL, getMessage = m, exc_info = None\<rparr> s)
             \<in> set (lines_for CRITICAL m (initialised s))
         \<and> fst (fatal (map PyStr xs) s) = Inl (SystemExit 1)
         \<and> fst (fatalf t' [] s) = Inl (SystemExit 1)"
proof -
  from assms(1) have lvl: "call_level c = CRITICAL" and n: "call_trace_id c = None" by auto
  have ex: "fst (run c s) = Inl (SystemExit 1)"
    by (simp add: run_fst assms(2) exit_of_def lvl)
  have wr: "written (snd (run c s)) = written s @ lines_for CRITICAL m (initialised s)"
    using run_prefix [of c s] by (simp add: run_new_lines assms(2) lvl n)
  have "\<exists>cfg' s0'. tubalog (initialised s) = tubalog (snd (create_logger cfg' s0'))"
  proof (cases "logger_set s")
    case True
    with assms(3) show ?thesis by auto
  next
    case False
    then have "tubalog (initialised s) = tubalog (snd (create_logger default_config s))"
      by (simp add: initialised_def default_logger_created)
    then show ?thesis by blast
  qed
  then obtain cfg' s0' where "tubalog (initialised s) = tubalog (snd (create_logger cfg' s0'))"
    by blast
  from created_console_line [OF this, of m]
  have con: "(Stdout, JSONFormatter_format
                       \<lparr>rec_level = CRITICAL, getMessage = m, exc_info = None\<rparr> s)
             \<in> set (lines_for CRITICAL m (initialised s))"
    by simp
  have always: "fst (fatal (map PyStr xs) s) = Inl (SystemExit 1)"
    "fst (fatalf t' [] s) = Inl (SystemExit 1)"
    using run_fst [of "Fatal (map PyStr xs)" s] run_fst [of "Fatalf t' []" s]
    by (simp_all add: join_args_strings interpolate_def exit_of_def)
  from ex wr con always show ?thesis by simp
qed

theorem fatal_emits_then_exits_witness:
  \<open>(Fatal [PyStr ''hello''] = Fatal [PyStr ''hello'']
      \<or> Fatal [PyStr ''hello''] = Fatalf '''' [PyStr ''hello''])
   \<and> rendering (snd (init info_cfg fresh)) (Fatal [PyStr ''hello'']) = Inr ''hello''
   \<and> tubalog (snd (init info_cfg fresh)) = tubalog (snd (create_logger info_cfg fresh))
   \<and> fatal [PyStr ''hello''] (snd (init info_cfg fresh)) =
       (Inl (SystemExit 1),
        (snd (init info_cfg fresh))
          \<lparr>written := [(Stdout, ''{"level":"critical","event_time":"1700000000","msg":"hello"}'')]\<rparr>)\<close>
proof -
  let ?s = "snd (init info_cfg fresh)"
  let ?c = "Fatal [PyStr ''hello'']"
  have h1: "?c = Fatal [PyStr ''hello''] \<or> ?c = Fatalf '''' [PyStr ''hello'']" by simp
  have h2: "rendering ?s ?c = Inr ''hello''" by (simp add: join_args_def)
  have h3: "tubalog ?s = tubalog (snd (create_logger info_cfg fresh))"
    by (simp add: init_def and_then_def split: prod.splits sum.splits)
  then have h3': "logger_set ?s \<longrightarrow> tubalog ?s = tubalog (snd (create_logger info_cfg fresh))"
    by simp
  have lines: \<open>lines_for CRITICAL ''hello'' ?s =
      [(Stdout, ''{"level":"critical","event_time":"1700000000","msg":"hello"}'')]\<close>
    unfolding init_info
    by (simp add: lines_for_def isEnabledFor_def getEffectiveLevel_def fresh_def format_fields
        fields_of_def lower_levelname str_nat_clock json_dumps_def encode_item_def
        simple_line dquote_def backslash_def)
  have set: "initialised ?s = ?s" by (simp add: init_info)
  have old: "written ?s = []" unfolding init_info by (simp add: fresh_def)
  from fatal_emits_then_exits [OF h1 h2 h3']
  have e: "fst (run ?c ?s) = Inl (SystemExit 1)"
    and w: "written (snd (run ?c ?s)) = written ?s @ lines_for CRITICAL ''hello'' (initialised ?s)"
    by blast+
  have rest: "snd (run ?c ?s) = ?s\<lparr>written := written (snd (run ?c ?s))\<rparr>"
    using h2 set by (simp add: run_eq)
  have "fatal [PyStr ''hello''] ?s = (fst (run ?c ?s), snd (run ?c ?s))" by simp
  also have "\<dots> = (Inl (SystemExit 1), ?s\<lparr>written := written (snd (run ?c ?s))\<rparr>)"
    using e rest by simp
  finally have \<open>fatal [PyStr ''hello''] ?s =
       (Inl (SystemExit 1),
        ?s\<lparr>written := [(Stdout, ''{"level":"critical","event_time":"1700000000","msg":"hello"}'')]\<rparr>)\<close>
    unfolding w set lines old by simp
  with h1 h2 h3 show ?thesis by blast
qed

text \<open>
  Claim C10. Whatever the public logging call and the state, every line the call adds reads
  back as a JSON object without the key \<open>stacktrace\<close>, and the lines written before stay
  as they were: the logger's methods are called without exception information.
\<close>

theorem no_stacktrace:
  "written (snd (run c s)) = written s @ new_lines s (snd (run c s))
   \<and> list_all (\<lambda>dl. json_loads (snd dl) \<noteq> None \<and> field ''stacktrace'' (snd dl) = None)
        (new_lines s (snd (run c s)))"
proof -
  have "json_loads l \<noteq> None \<and> field ''stacktrace'' l = None"
    if "(d, l) \<in> set (new_lines s (snd (run c s)))" for d l
  proof (cases "rendering s c")
    case (Inl e)
    with that show ?thesis by (simp add: run_new_lines)
  next
    case (Inr m)
    with that have mem: "(d, l) \<in> set (lines_for (call_level c) m (scope c (initialised s)))"
      by (simp add: run_new_lines)
    then have "l = JSONFormatter_format
        \<lparr>rec_level = call_level c, getMessage = m, exc_info = None\<rparr> (scope c (initialised s))"
      by (auto simp: lines_for_def split: if_splits)
    then have "json_loads l \<noteq> None" by (simp add: format_fields json_loads_dumps)
    with lines_for_fields(4) [OF mem] show ?thesis by simp
  qed
  then have "list_all (\<lambda>dl. json_loads (snd dl) \<noteq> None \<and> field ''stacktrace'' (snd dl) = None)
        (new_lines s (snd (run c s)))"
    by (auto simp: list_all_iff)
  with run_prefix [of c s] show ?thesis by simp
qed

end
